theory Spec2Isabelle
  imports Complex_Main "HOL-Library.Char_ord" "HOL-Library.List_Lexorder"
    "HOL-Library.Sublist"
begin

section \<open>Data model of the orders dashboard (src/src/App.jsx)\<close>

text \<open>
  The JavaScript objects are modelled as records of values. Every update in the source
  builds a new object or array (object spread, \<^verbatim>\<open>map\<close>, \<^verbatim>\<open>filter\<close>, array spread); no
  object is written in place after it has been stored, so value semantics is what the
  program can observe. Numbers are the numbers of the JavaScript engine: their type \<open>'n\<close>
  is a parameter, and zero, addition and multiplication on them are functions of the
  runtime, so nothing is assumed about how they round. Calls into the JavaScript runtime
  and into \<^verbatim>\<open>date-fns\<close> (\<^verbatim>\<open>toFixed\<close>, number-to-string conversion, \<^verbatim>\<open>format\<close>, \<^verbatim>\<open>Date\<close> parsing,
  \<^verbatim>\<open>toLowerCase\<close>, \<^verbatim>\<open>trim\<close>, the clock, \<^verbatim>\<open>window.confirm\<close>) are parameters of the functions
  that use them as well.
\<close>

record 'n item =
  itemId :: string
  name :: string
  price :: 'n
  qty :: 'n

record delivery =
  d_name :: string
  d_phone :: string
  d_address :: string
  d_note :: string

record 'n order =
  oid :: string
  customer :: string
  otype :: string
  items :: "'n item list"
  status :: string
  assigned :: string
  createdAt :: string
  delivery :: "delivery option"
  paymentType :: "string option"
  payment :: "string option"

text \<open>A completed record is \<^verbatim>\<open>{ ...order, completedAt }\<close>: the order's fields and one more.\<close>

record 'n completed =
  snapshot :: "'n order"
  completedAt :: string

record shop =
  shop_name :: string
  shop_address :: string
  shop_phone :: string
  taxNumber :: string
  logo :: "string option"

text \<open>The second argument of \<^verbatim>\<open>onUpdate(id, patch)\<close>: the fields that are present.\<close>

record 'n patch =
  p_oid :: "string option"
  p_customer :: "string option"
  p_otype :: "string option"
  p_items :: "'n item list option"
  p_status :: "string option"
  p_assigned :: "string option"
  p_createdAt :: "string option"
  p_delivery :: "delivery option option"
  p_paymentType :: "string option option"
  p_payment :: "string option option"

text \<open>The React state of \<^verbatim>\<open>RestaurantOrdersDashboard\<close> that the operations read and write.\<close>

record 'n state =
  orders :: "'n order list"
  completedOrders :: "'n completed list"
  query :: string
  statusFilter :: string
  typeFilter :: string
  page :: int

section \<open>JavaScript library functions used by the views\<close>

text \<open>
  \<^verbatim>\<open>Array.prototype.sort\<close> with a comparator: the sort is stable, and an element \<open>a\<close> stays in
  front of \<open>b\<close> unless \<open>cmp a b > 0\<close>. It is modelled as a stable insertion sort.
\<close>

fun insort_cmp :: "('a \<Rightarrow> 'a \<Rightarrow> int) \<Rightarrow> 'a \<Rightarrow> 'a list \<Rightarrow> 'a list" where
  "insort_cmp cmp x [] = [x]"
| "insort_cmp cmp x (y # ys) =
     (if cmp x y \<le> 0 then x # y # ys else y # insort_cmp cmp x ys)"

definition js_sort :: "('a \<Rightarrow> 'a \<Rightarrow> int) \<Rightarrow> 'a list \<Rightarrow> 'a list" where
  "js_sort cmp xs = foldr (insort_cmp cmp) xs []"

text \<open>
  \<^verbatim>\<open>a.localeCompare(b)\<close>, taken as the comparison of the character codes. On day keys
  \<^verbatim>\<open>yyyy-MM-dd\<close> (digits and hyphens at fixed positions) every collation agrees with it.
\<close>

definition localeCompare :: "string \<Rightarrow> string \<Rightarrow> int" where
  "localeCompare a b = (if a < b then - 1 else if b < a then 1 else 0)"

text \<open>\<^verbatim>\<open>s.includes(q)\<close>\<close>

definition str_includes :: "string \<Rightarrow> string \<Rightarrow> bool" where
  "str_includes s q = sublist q s"

text \<open>\<^verbatim>\<open>Array.prototype.join\<close> on an array of strings.\<close>

fun join :: "string \<Rightarrow> string list \<Rightarrow> string" where
  "join sep [] = []"
| "join sep [x] = x"
| "join sep (x # y # ys) = x @ sep @ join sep (y # ys)"

text \<open>\<^verbatim>\<open>s.replace(/c/g, r)\<close> for a single character \<open>c\<close>.\<close>

definition replace_all :: "char \<Rightarrow> string \<Rightarrow> string \<Rightarrow> string" where
  "replace_all c r s = concat (map (\<lambda>x. if x = c then r else [x]) s)"

text \<open>\<^verbatim>\<open>a || b\<close> on strings: the empty string is falsy; \<open>None\<close> is \<^verbatim>\<open>null\<close> or \<^verbatim>\<open>undefined\<close>.\<close>

definition or_str :: "string \<Rightarrow> string \<Rightarrow> string" where
  "or_str a b = (if a = [] then b else a)"

definition or_default :: "string option \<Rightarrow> string \<Rightarrow> string" where
  "or_default a b = (case a of None \<Rightarrow> b | Some s \<Rightarrow> or_str s b)"

text \<open>\<^verbatim>\<open>xs.slice(start, end)\<close> with integer arguments.\<close>

definition js_slice :: "int \<Rightarrow> int \<Rightarrow> 'a list \<Rightarrow> 'a list" where
  "js_slice start end xs =
     (let len = int (length xs);
          k = (if start < 0 then max (len + start) 0 else min start len);
          final = (if end < 0 then max (len + end) 0 else min end len)
      in take (nat (final - k)) (drop (nat k) xs))"

text \<open>
  The functions of the JavaScript runtime and of date-fns that the dashboard calls.
  \<open>Date_ms t\<close> is the time value of \<^verbatim>\<open>new Date(t)\<close> (the \<^verbatim>\<open>createdAt\<close> strings come from
  \<^verbatim>\<open>toISOString\<close>, so they denote valid dates), \<open>format t p\<close> is \<^verbatim>\<open>format(new Date(t), p)\<close>,
  \<open>num_zero\<close> is the number \<^verbatim>\<open>0\<close>, \<open>num_add a b\<close> is \<^verbatim>\<open>a + b\<close> and \<open>num_mul a b\<close> is \<^verbatim>\<open>a * b\<close> on
  numbers, \<open>toFixed2 n\<close> is \<^verbatim>\<open>n.toFixed(2)\<close> and \<open>String_num n\<close> is the conversion of a number
  in a template literal.
\<close>

record 'n runtime =
  toLowerCase :: "string \<Rightarrow> string"
  trim :: "string \<Rightarrow> string"
  Date_ms :: "string \<Rightarrow> int"
  format :: "string \<Rightarrow> string \<Rightarrow> string"
  num_zero :: "'n"
  num_add :: "'n \<Rightarrow> 'n \<Rightarrow> 'n"
  num_mul :: "'n \<Rightarrow> 'n \<Rightarrow> 'n"
  toFixed2 :: "'n \<Rightarrow> string"
  String_num :: "'n \<Rightarrow> string"

section \<open>Totals\<close>

text \<open>
  The total of an order, \<^verbatim>\<open>items.reduce((s, it) => s + it.qty * it.price, 0)\<close>. The source
  has no function for it: every view that shows a total writes this expression out, and
  so do the definitions of the views below.
\<close>

definition total :: "'n runtime \<Rightarrow> 'n order \<Rightarrow> 'n" where
  "total rt ord =
     foldl (\<lambda>s it. num_add rt s (num_mul rt (qty it) (price it))) (num_zero rt) (items ord)"

section \<open>Completion archive\<close>

definition addCompleted :: "string \<Rightarrow> 'n order \<Rightarrow> 'n completed list \<Rightarrow> 'n completed list" where
  "addCompleted now order prev =
     (if list_ex (\<lambda>ord. oid (snapshot ord) = oid order) prev then prev
      else \<lparr>snapshot = order, completedAt = now\<rparr> # prev)"

definition removeCompleted :: "string \<Rightarrow> 'n state \<Rightarrow> 'n state" where
  "removeCompleted i st =
     st\<lparr>completedOrders := filter (\<lambda>ord. oid (snapshot ord) \<noteq> i) (completedOrders st)\<rparr>"

text \<open>\<^verbatim>\<open>window.confirm\<close> answers \<open>confirmed\<close>.\<close>

definition clearCompleted :: "bool \<Rightarrow> 'n state \<Rightarrow> 'n state" where
  "clearCompleted confirmed st =
     (if \<not> confirmed then st else st\<lparr>completedOrders := []\<rparr>)"

definition getDayKey :: "'n runtime \<Rightarrow> string \<Rightarrow> string" where
  "getDayKey rt timestamp = format rt timestamp ''yyyy-MM-dd''"

definition removeCompletedDay :: "'n runtime \<Rightarrow> string \<Rightarrow> 'n state \<Rightarrow> 'n state" where
  "removeCompletedDay rt dayKey st =
     st\<lparr>completedOrders :=
          filter (\<lambda>ord. getDayKey rt (completedAt ord) \<noteq> dayKey) (completedOrders st)\<rparr>"

section \<open>Order store\<close>

text \<open>\<^verbatim>\<open>Array.prototype.findIndex\<close>; \<open>None\<close> is the result \<^verbatim>\<open>-1\<close>.\<close>

fun findIndex :: "('a \<Rightarrow> bool) \<Rightarrow> 'a list \<Rightarrow> nat option" where
  "findIndex P [] = None"
| "findIndex P (x # xs) =
     (if P x then Some 0 else map_option Suc (findIndex P xs))"

definition upsertOrder :: "string \<Rightarrow> 'n order \<Rightarrow> 'n state \<Rightarrow> 'n state" where
  "upsertOrder now order st =
     (let s = orders st in
      case findIndex (\<lambda>ord. oid ord = oid order) s of
        None \<Rightarrow>
          st\<lparr>orders := order # s,
             completedOrders :=
               (if status order = ''Delivered''
                then addCompleted now order (completedOrders st)
                else completedOrders st)\<rparr>
      | Some idx \<Rightarrow>
          (let prev = s ! idx; copy = s[idx := order] in
           st\<lparr>orders := copy,
              completedOrders :=
                (if status prev \<noteq> status order \<and> status order = ''Delivered''
                 then addCompleted now order (completedOrders st)
                 else completedOrders st)\<rparr>))"

definition deleteOrder :: "string \<Rightarrow> 'n state \<Rightarrow> 'n state" where
  "deleteOrder i st = st\<lparr>orders := filter (\<lambda>ord. oid ord \<noteq> i) (orders st)\<rparr>"

text \<open>\<^verbatim>\<open>{ ...o, ...patch }\<close>\<close>

definition merge :: "'n order \<Rightarrow> 'n patch \<Rightarrow> 'n order" where
  "merge ord p =
     \<lparr>oid = (case p_oid p of None \<Rightarrow> oid ord | Some v \<Rightarrow> v),
      customer = (case p_customer p of None \<Rightarrow> customer ord | Some v \<Rightarrow> v),
      otype = (case p_otype p of None \<Rightarrow> otype ord | Some v \<Rightarrow> v),
      items = (case p_items p of None \<Rightarrow> items ord | Some v \<Rightarrow> v),
      status = (case p_status p of None \<Rightarrow> status ord | Some v \<Rightarrow> v),
      assigned = (case p_assigned p of None \<Rightarrow> assigned ord | Some v \<Rightarrow> v),
      createdAt = (case p_createdAt p of None \<Rightarrow> createdAt ord | Some v \<Rightarrow> v),
      delivery = (case p_delivery p of None \<Rightarrow> delivery ord | Some v \<Rightarrow> v),
      paymentType = (case p_paymentType p of None \<Rightarrow> paymentType ord | Some v \<Rightarrow> v),
      payment = (case p_payment p of None \<Rightarrow> payment ord | Some v \<Rightarrow> v)\<rparr>"

definition onUpdate :: "string \<Rightarrow> string \<Rightarrow> 'n patch \<Rightarrow> 'n state \<Rightarrow> 'n state" where
  "onUpdate now i p st =
     (let prev = orders st;
          before = find (\<lambda>ord. oid ord = i) prev;
          next = map (\<lambda>ord. if oid ord = i then merge ord p else ord) prev;
          after = find (\<lambda>ord. oid ord = i) next
      in st\<lparr>orders := next,
            completedOrders :=
              (case (before, after) of
                 (Some b, Some a) \<Rightarrow>
                   (if status b \<noteq> status a \<and> status a = ''Delivered''
                    then addCompleted now a (completedOrders st)
                    else completedOrders st)
               | _ \<Rightarrow> completedOrders st)\<rparr>)"

text \<open>The patch \<^verbatim>\<open>{ status: s }\<close> that the status drop-down of the orders table sends.\<close>

definition status_patch :: "string \<Rightarrow> 'n patch" where
  "status_patch s =
     \<lparr>p_oid = None, p_customer = None, p_otype = None, p_items = None,
      p_status = Some s, p_assigned = None, p_createdAt = None, p_delivery = None,
      p_paymentType = None, p_payment = None\<rparr>"

text \<open>One user action on the order store, and a run of them, each at its own clock time.\<close>

datatype 'n store_op =
    Upsert string "'n order"
  | Patch string string "'n patch"
  | Delete string

fun apply_op :: "'n store_op \<Rightarrow> 'n state \<Rightarrow> 'n state" where
  "apply_op (Upsert now order) st = upsertOrder now order st"
| "apply_op (Patch now i p) st = onUpdate now i p st"
| "apply_op (Delete i) st = deleteOrder i st"

definition run_ops :: "'n store_op list \<Rightarrow> 'n state \<Rightarrow> 'n state" where
  "run_ops ops st = foldl (\<lambda>s x. apply_op x s) st ops"

definition archived_ids :: "'n state \<Rightarrow> string list" where
  "archived_ids st = map (\<lambda>c. oid (snapshot c)) (completedOrders st)"

section \<open>Filters, search and pagination\<close>

definition filtered :: "'n runtime \<Rightarrow> 'n state \<Rightarrow> 'n order list" where
  "filtered rt st =
     (let q = toLowerCase rt (trim rt (query st)) in
      js_sort (\<lambda>a b. Date_ms rt (createdAt b) - Date_ms rt (createdAt a))
        (filter (\<lambda>ord.
             if q = [] then True
             else str_includes (toLowerCase rt (oid ord)) q \<or>
                  str_includes (toLowerCase rt (customer ord)) q \<or>
                  list_ex (\<lambda>it. str_includes (toLowerCase rt (name it)) q) (items ord))
          (filter (\<lambda>ord. if typeFilter st = ''All'' then True else otype ord = typeFilter st)
            (filter (\<lambda>ord. if statusFilter st = ''All'' then True
                             else status ord = statusFilter st)
              (orders st)))))"

definition perPage :: int where
  "perPage = 6"

definition totalPages :: "'n runtime \<Rightarrow> 'n state \<Rightarrow> int" where
  "totalPages rt st =
     max 1 \<lceil>(of_nat (length (filtered rt st)) :: rat) / of_int perPage\<rceil>"

definition pageItems :: "'n runtime \<Rightarrow> 'n state \<Rightarrow> 'n order list" where
  "pageItems rt st =
     js_slice ((page st - 1) * perPage) (page st * perPage) (filtered rt st)"

text \<open>The three inputs of the filter: each handler also calls \<^verbatim>\<open>setPage(1)\<close>.\<close>

definition setQuery :: "string \<Rightarrow> 'n state \<Rightarrow> 'n state" where
  "setQuery v st = st\<lparr>query := v, page := 1\<rparr>"

definition setStatusFilter :: "string \<Rightarrow> 'n state \<Rightarrow> 'n state" where
  "setStatusFilter v st = st\<lparr>statusFilter := v, page := 1\<rparr>"

definition setTypeFilter :: "string \<Rightarrow> 'n state \<Rightarrow> 'n state" where
  "setTypeFilter v st = st\<lparr>typeFilter := v, page := 1\<rparr>"

text \<open>
  The Prev and Next buttons: a button that is \<^verbatim>\<open>disabled\<close> does not fire, otherwise its
  \<^verbatim>\<open>onClick\<close> runs.
\<close>

definition prevPage :: "'n state \<Rightarrow> 'n state" where
  "prevPage st =
     (if page st \<le> 1 then st else st\<lparr>page := max 1 (page st - 1)\<rparr>)"

definition nextPage :: "'n runtime \<Rightarrow> 'n state \<Rightarrow> 'n state" where
  "nextPage rt st =
     (if page st \<ge> totalPages rt st then st
      else st\<lparr>page := min (totalPages rt st) (page st + 1)\<rparr>)"

section \<open>Completed orders grouped by day\<close>

record 'n day_group =
  day :: string
  g_items :: "'n completed list"

text \<open>
  \<^verbatim>\<open>if (!map[day]) map[day] = []; map[day].push(o)\<close> on an object whose keys are day keys:
  the keys keep their insertion order.
\<close>

fun push_day :: "string \<Rightarrow> 'n completed \<Rightarrow> (string \<times> 'n completed list) list \<Rightarrow>
    (string \<times> 'n completed list) list" where
  "push_day d c [] = [(d, [c])]"
| "push_day d c ((k, cs) # m) =
     (if k = d then (k, cs @ [c]) # m else (k, cs) # push_day d c m)"

definition day_map :: "'n runtime \<Rightarrow> 'n completed list \<Rightarrow> (string \<times> 'n completed list) list" where
  "day_map rt completed =
     foldl (\<lambda>m c. push_day (format rt (completedAt c) ''yyyy-MM-dd'') c m) [] completed"

definition grouped :: "'n runtime \<Rightarrow> 'n completed list \<Rightarrow> 'n day_group list" where
  "grouped rt completed =
     (let m = day_map rt completed;
          days = js_sort (\<lambda>a b. localeCompare b a) (map fst m)
      in map (\<lambda>d. \<lparr>day = d, g_items = (case map_of m d of None \<Rightarrow> [] | Some cs \<Rightarrow> cs)\<rparr>)
           days)"

text \<open>
  The total of a day, computed where the group is drawn. The test \<^verbatim>\<open>o.items ? ... : 0\<close> of
  the source always takes its first branch here, since every record has its items.
\<close>

definition dayTotal :: "'n runtime \<Rightarrow> 'n completed list \<Rightarrow> 'n" where
  "dayTotal rt its =
     foldl (\<lambda>s c. num_add rt s
              (foldl (\<lambda>ss it. num_add rt ss (num_mul rt (qty it) (price it))) (num_zero rt)
                 (items (snapshot c))))
       (num_zero rt) its"

section \<open>CSV export\<close>

definition headers :: "string list" where
  "headers =
     [''id'', ''customer'', ''type'', ''status'', ''assigned'', ''createdAt'', ''items'',
      ''total'', ''delivery_name'', ''delivery_phone'', ''delivery_address'',
      ''delivery_note'']"

definition csv_row :: "'n runtime \<Rightarrow> 'n order \<Rightarrow> string list" where
  "csv_row rt ord =
     (let itemsStr = join ''; '' (map (\<lambda>it. name it @ '' x'' @ String_num rt (qty it))
                                   (items ord));
          total = foldl (\<lambda>s it. num_add rt s (num_mul rt (qty it) (price it))) (num_zero rt)
                    (items ord)
      in [oid ord,
          customer ord,
          otype ord,
          status ord,
          or_str (assigned ord) [],
          createdAt ord,
          itemsStr,
          toFixed2 rt total,
          or_default (map_option d_name (delivery ord)) [],
          or_default (map_option d_phone (delivery ord)) [],
          or_default (map_option d_address (delivery ord)) [],
          or_default (map_option d_note (delivery ord)) []])"

text \<open>The cell \<^verbatim>\<open>`"${String(c).replace(/"/g, '""')}"`\<close>.\<close>

definition quote_cell :: "string \<Rightarrow> string" where
  "quote_cell c = [CHR 0x22] @ replace_all (CHR 0x22) [CHR 0x22, CHR 0x22] c @ [CHR 0x22]"

definition downloadCSV :: "'n runtime \<Rightarrow> 'n state \<Rightarrow> string" where
  "downloadCSV rt st =
     (let rows = map (csv_row rt) (orders st)
      in join [CHR 0x0A]
           (join '','' headers # map (\<lambda>r. join '','' (map quote_cell r)) rows))"

section \<open>Receipt\<close>

definition escapeHtml :: "string \<Rightarrow> string" where
  "escapeHtml unsafe =
     (if unsafe = [] then []
      else replace_all (CHR 0x27) ''&#039;''
            (replace_all (CHR 0x22) ''&quot;''
              (replace_all (CHR ''>'') ''&gt;''
                (replace_all (CHR ''<'') ''&lt;''
                  (replace_all (CHR ''&'') ''&amp;'' unsafe)))))"

text \<open>Source lines of the template, each followed by its line break.\<close>

definition text_lines :: "string list \<Rightarrow> string" where
  "text_lines ls = concat (map (\<lambda>l. l @ [CHR 0x0A]) ls)"

text \<open>Lines 281 to 341 of the template literal: the document head with the style sheet, and the opening of the receipt.\<close>

definition receipt_head :: "string list" where
  \<open>receipt_head =
    [''<html>'',
     ''<head>'',
     '' '',
     ''  <meta charset="utf-8" />'',
     ''  <style>'',
     ''      @page { size: auto; margin: 0mm; } /* allow printer to choose length */'',
     ''  html, body {'',
     ''    margin: 0;'',
     ''    padding: 0;'',
     ''    color: #000;'',
     ''    -webkit-print-color-adjust: exact;'',
     ''    '',
     ''    font-size: 12px;'',
     ''    line-height: 1.1;'',
     ''    height: auto !important;'',
     ''  }'',
     '''',
     ''    .receipt {'',
     ''    width: 300px;        /* change to 240px / 380px if your printer needs it */'',
     ''    max-width: 100%;'',
     ''    margin: 0 auto;'',
     ''    padding: 8px 10px;'',
     ''    box-sizing: border-box;'',
     ''    display: block;'',
     ''    height: auto;'',
     ''    filter: none;'',
     ''  }'',
     '''',
     ''  /* Visual styles */'',
     ''  .center { text-align: center; }'',
     ''  .muted { color: #000; opacity: 1; font-size: 11px; }'',
     ''  .bold { font-weight: 700; }'',
     ''  table { width: 100%; border-collapse: collapse; margin-top: 8px; table-layout: fixed; }'',
     ''  colgroup col:first-child { width: 57%; }'',
     ''  colgroup col:nth-child(2) { width: 13%; }'',
     ''  colgroup col:nth-child(3) { width: 15%; }'',
     ''  colgroup col:nth-child(4) { width: 15%; }'',
     ''  th, td { padding: 4px 6px; vertical-align: top; word-wrap: break-word; }'',
     ''  th { font-weight: 700; font-size: 12px; }'',
     ''  .right { text-align: right; }'',
     ''  hr { border: none; border-top: 1px dashed #000; margin: 8px 0; }'',
     '''',
     ''  /* Printing behaviour: avoid breaking rows across pages */'',
     ''  table { page-break-inside: auto; }'',
     ''  tr    { page-break-inside: avoid; page-break-after: auto; }'',
     ''  thead { display: table-header-group; } /* keep header on each printed page */'',
     ''  tfoot { display: table-footer-group; }'',
     ''      strong{'',
     ''        font-size: 13px;'',
     ''      }'',
     ''  /* Small print-specific tweaks */'',
     ''  @media print {'',
     ''    body { margin: 0; }'',
     ''    .receipt { box-shadow: none; }'',
     ''  }'',
     ''  </style>'',
     ''</head>'',
     ''<body>'',
     ''  <div class="receipt">'',
     ''    <div class="center">'',
     ''      '']\<close>

text \<open>Lines 347 to 350 of the template literal: the fixed titles.\<close>

definition receipt_titles :: "string list" where
  \<open>receipt_titles =
    [''      <div class="bold" style="font-size:20px;margin-bottom:2px; font-weight: 700;">F . H PIZZA BURGER SAUCE</div>'',
     ''      <div class="bold" style="font-size:14px;margin-bottom:2px;">Order Confirmation</div>'',
     ''      <div class="bold" style="font-size:13px;margin-bottom:6px;">Payment Receipt</div>'',
     ''      <div  style="text-align:left; margin-top:4px">'']\<close>

text \<open>Lines 353 to 359 of the template literal: between the shop block and the date.\<close>

definition receipt_after_shop :: "string list" where
  \<open>receipt_after_shop =
    [''      </div>'',
     ''   '',
     ''    </div>'',
     '''',
     ''    <div class="spacer"></div>'',
     '''',
     ''    <div style="font-size:12px;">'']\<close>

text \<open>Lines 361 to 365 of the template literal: between the date and the order block.\<close>

definition receipt_after_date :: "string list" where
  \<open>receipt_after_date =
    [''    </div>'',
     '''',
     ''    <div class="spacer"></div>'',
     '''',
     ''    <div style="font-size:12px;">'']\<close>

text \<open>Lines 382 to 403 of the template literal: the end of the order block and the head of the item table.\<close>

definition receipt_table_head :: "string list" where
  \<open>receipt_table_head =
    [''    </div>'',
     '''',
     ''    <div class="spacer"></div>'',
     '''',
     ''    <hr />'',
     '''',
     ''    <table>'',
     ''      <colgroup>'',
     ''        <col style="width:52%">'',
     ''        <col style="width:12%">'',
     ''        <col style="width:18%">'',
     ''        <col style="width:18%">'',
     ''      </colgroup>'',
     ''      <thead>'',
     ''        <tr>'',
     ''          <th style="text-align:left">Description</th>'',
     ''          <th class="right">QTY</th>'',
     ''          <th class="right">Price</th>'',
     ''          <th class="right">Total</th>'',
     ''        </tr>'',
     ''      </thead>'',
     ''      <tbody>'']\<close>

text \<open>Lines 405 to 411 of the template literal: the end of the table and the subtotal label.\<close>

definition receipt_after_rows :: "string list" where
  \<open>receipt_after_rows =
    [''      </tbody>'',
     ''    </table>'',
     '''',
     ''    <hr />'',
     '''',
     ''    <div style="display:flex;justify-content:space-between;font-weight:700;margin-top:6px;">'',
     ''      <div class="muted">Subtotal</div>'']\<close>

text \<open>Lines 413 to 416 of the template literal: between the subtotal and the total.\<close>

definition receipt_total_label :: "string list" where
  \<open>receipt_total_label =
    [''    </div>'',
     '''',
     ''    <div style="display:flex;justify-content:space-between;font-weight:900;margin-top:6px;">'',
     ''      <div class="bold">Total (PKR)</div>'']\<close>

text \<open>Lines 418 to 425 of the template literal: the closing of the document.\<close>

definition receipt_tail :: "string list" where
  \<open>receipt_tail =
    [''    </div>'',
     '''',
     ''    <div class="spacer"></div>'',
     '''',
     ''    <div class="center muted" style="font-size:12px;margin-top:6px;">Thank you for visiting!</div>'',
     ''  </div>'',
     ''</body>'',
     ''</html>'']\<close>

text \<open>One row of the item table; the rows are joined without a separator.\<close>

definition receipt_row :: "'n runtime \<Rightarrow> 'n item \<Rightarrow> string" where
  \<open>receipt_row rt it =
     (let lineTotal = num_mul rt (qty it) (price it) in
      ''<tr style="font-size:13px">'' @ [CHR 0x0A] @
      ''    <td style="padding:4px 6px;">'' @ escapeHtml (name it) @ ''</td>'' @ [CHR 0x0A] @
      ''    <td class="right" style="padding:2px 3px;">'' @ String_num rt (qty it) @
        ''</td>'' @ [CHR 0x0A] @
      ''    <td class="right" style="padding:2px 3px;">'' @ String_num rt (price it) @
        ''</td>'' @ [CHR 0x0A] @
      ''    <td class="right" style="padding:2px 3px;">'' @ String_num rt lineTotal @
        ''</td>'' @ [CHR 0x0A] @
      ''  </tr>'')\<close>

text \<open>The holes of the template that choose between two texts.\<close>

definition receipt_logo :: "shop \<Rightarrow> string" where
  \<open>receipt_logo shop =
     (case logo shop of
        None \<Rightarrow> []
      | Some l \<Rightarrow>
          if l = [] then []
          else ''<img src="'' @ l @
               ''" alt="logo" style="max-width:140px;height:auto;display:block;margin:0 auto 8px;" />'')\<close>

definition receipt_address :: "'n order \<Rightarrow> string" where
  \<open>receipt_address order =
     (case delivery order of
        None \<Rightarrow> []
      | Some d \<Rightarrow>
          if otype order = ''Delivery'' \<and> d_address d \<noteq> []
          then ''<div><strong>Address:</strong> '' @ escapeHtml (d_address d) @ ''</div>''
          else [])\<close>

text \<open>The separator before the phone number is a space, the bullet U+2022 and a space.\<close>

definition receipt_customer :: "'n order \<Rightarrow> string" where
  \<open>receipt_customer order =
     (case delivery order of
        Some d \<Rightarrow>
          ''<div><strong>Customer:</strong> '' @
          escapeHtml (or_str (d_name d) (or_str (customer order) [])) @ '' '' @
          (if d_phone d \<noteq> []
           then [CHR 0x20, CHR 0xE2, CHR 0x80, CHR 0xA2, CHR 0x20] @ escapeHtml (d_phone d)
           else []) @
          ''</div>''
      | None \<Rightarrow>
          ''<div><strong>Customer:</strong> '' @ escapeHtml (or_str (customer order) []) @
          ''</div>'')\<close>

text \<open>
  The document that \<^verbatim>\<open>printOrder\<close> writes into the new window. The template literal starts
  with a line break. \<^verbatim>\<open>deliverySection\<close> and the first \<^verbatim>\<open>total\<close> of the source are
  computed and never used, so they are not part of the document.
\<close>

definition receipt_html :: "'n runtime \<Rightarrow> shop \<Rightarrow> 'n order \<Rightarrow> string" where
  \<open>receipt_html rt shop order =
     (let lines = concat (map (receipt_row rt) (items order));
          subtotal = foldl (\<lambda>s it. num_add rt s (num_mul rt (qty it) (price it))) (num_zero rt)
                       (items order);
          grandTotal = subtotal
      in [CHR 0x0A] @
         text_lines receipt_head @
         text_lines [''      '' @ receipt_logo shop] @
         text_lines receipt_titles @
         text_lines
           [''         <div class=" "><strong>Add:</strong> '' @
              escapeHtml (or_str (shop_address shop) []) @ ''</div>'',
            ''      <div class=" "><strong>Phone:</strong> '' @
              escapeHtml (or_str (shop_phone shop) []) @ ''</div>''] @
         text_lines receipt_after_shop @
         text_lines
           [''      <div><strong>Date:</strong> '' @
              escapeHtml (format rt (createdAt order) ''PPpp'') @ ''</div>''] @
         text_lines receipt_after_date @
         text_lines
           [''      <div><strong>Order:</strong> '' @ escapeHtml (oid order) @ ''</div>'',
            ''      <div><strong>Order Type:</strong> '' @
              escapeHtml (or_str (otype order) []) @ ''</div>'',
            ''      <div><strong>Payment Type:</strong> '' @
              escapeHtml (or_default (paymentType order)
                           (or_default (payment order) ''CASH'')) @ ''</div>'',
            ''      '' @ receipt_address order,
            ''      '' @ receipt_customer order,
            ''      <div><strong>Cashier:</strong> '' @
              escapeHtml (or_str (shop_name shop) []) @ ''</div>''] @
         text_lines receipt_table_head @
         text_lines [''        '' @ lines] @
         text_lines receipt_after_rows @
         text_lines [''      <div class="right">'' @ toFixed2 rt subtotal @ ''</div>''] @
         text_lines receipt_total_label @
         text_lines [''      <div class="right bold">'' @ toFixed2 rt grandTotal @ ''</div>''] @
         text_lines receipt_tail)\<close>

text \<open>\<^verbatim>\<open>window.open\<close> gives a window or \<^verbatim>\<open>null\<close>; without a window nothing is written.\<close>

definition printOrder :: "bool \<Rightarrow> 'n runtime \<Rightarrow> shop \<Rightarrow> 'n order \<Rightarrow> string option" where
  "printOrder popup rt shop order =
     (if \<not> popup then None else Some (receipt_html rt shop order))"

section \<open>A reader for comma-separated text\<close>

text \<open>
  The export is meant to be read back by a standard CSV reader. This reader follows
  RFC 4180: fields are separated by commas and records by line breaks; a field that starts
  with a double quote runs to the closing double quote, and inside it two double quotes
  stand for one and commas and line breaks are ordinary characters. It is the reference
  against which the export is checked and is not part of the dashboard.
\<close>

datatype csv_mode = FieldStart | Unquoted | Quoted | QuoteSeen

type_synonym csv_state = "csv_mode \<times> string \<times> string list \<times> string list list"

fun csv_step :: "csv_state \<Rightarrow> char \<Rightarrow> csv_state" where
  "csv_step (FieldStart, f, r, rs) c =
     (if c = CHR 0x22 then (Quoted, [], r, rs)
      else if c = CHR '','' then (FieldStart, [], r @ [[]], rs)
      else if c = CHR 0x0A then (FieldStart, [], [], rs @ [r @ [[]]])
      else (Unquoted, [c], r, rs))"
| "csv_step (Unquoted, f, r, rs) c =
     (if c = CHR '','' then (FieldStart, [], r @ [f], rs)
      else if c = CHR 0x0A then (FieldStart, [], [], rs @ [r @ [f]])
      else (Unquoted, f @ [c], r, rs))"
| "csv_step (Quoted, f, r, rs) c =
     (if c = CHR 0x22 then (QuoteSeen, f, r, rs) else (Quoted, f @ [c], r, rs))"
| "csv_step (QuoteSeen, f, r, rs) c =
     (if c = CHR 0x22 then (Quoted, f @ [CHR 0x22], r, rs)
      else if c = CHR '','' then (FieldStart, [], r @ [f], rs)
      else if c = CHR 0x0A then (FieldStart, [], [], rs @ [r @ [f]])
      else (Unquoted, f @ [c], r, rs))"

fun csv_finish :: "csv_state \<Rightarrow> string list list" where
  "csv_finish (m, f, r, rs) = (if m = FieldStart \<and> r = [] then rs else rs @ [r @ [f]])"

definition csv_read :: "string \<Rightarrow> string list list" where
  "csv_read text = csv_finish (foldl csv_step (FieldStart, [], [], []) text)"

section \<open>A reference runtime and example data\<close>

text \<open>
  An instance of the runtime functions on ASCII text, for the examples: lower-casing of
  the letters A to Z, trimming of blanks, a time value that orders \<^verbatim>\<open>toISOString\<close> texts as
  their instants are ordered (the number spelled by the digits), the day key of a UTC
  time zone, and numbers taken as rationals with exact arithmetic and decimal printing
  with two digits, rounding half away from zero. On the whole numbers of the examples
  the arithmetic of doubles is exact as well.
\<close>

definition ascii_lower :: "char \<Rightarrow> char" where
  "ascii_lower c =
     (if CHR ''A'' \<le> c \<and> c \<le> CHR ''Z'' then char_of (of_char c + (32 :: nat)) else c)"

definition is_blank :: "char \<Rightarrow> bool" where
  "is_blank c = (c = CHR '' '' \<or> c = CHR 0x09 \<or> c = CHR 0x0A \<or> c = CHR 0x0D)"

definition ascii_trim :: "string \<Rightarrow> string" where
  "ascii_trim s = rev (dropWhile is_blank (rev (dropWhile is_blank s)))"

definition digit_char :: "nat \<Rightarrow> char" where
  "digit_char n = char_of (48 + n mod 10)"

function dec :: "nat \<Rightarrow> string" where
  "dec n = (if n < 10 then [digit_char n] else dec (n div 10) @ [digit_char n])"
  by pat_completeness auto
termination
  by (relation "measure id") auto

definition iso_number :: "string \<Rightarrow> int" where
  "iso_number s =
     foldl (\<lambda>n c. if CHR ''0'' \<le> c \<and> c \<le> CHR ''9''
                   then 10 * n + (of_char c - 48) else n) 0 s"

definition utc_format :: "string \<Rightarrow> string \<Rightarrow> string" where
  "utc_format t p = (if p = ''yyyy-MM-dd'' then take 10 t else t)"

definition fixed2 :: "rat \<Rightarrow> string" where
  "fixed2 r =
     (let n = nat \<lfloor>\<bar>r\<bar> * 100 + 1 / 2\<rfloor> in
      (if r < 0 \<and> 0 < n then ''-'' else []) @
      dec (n div 100) @ ''.'' @ [digit_char (n div 10), digit_char n])"

definition num_string :: "rat \<Rightarrow> string" where
  "num_string r =
     (if of_int \<lfloor>r\<rfloor> = r
      then (if r < 0 then ''-'' else []) @ dec (nat \<bar>\<lfloor>r\<rfloor>\<bar>)
      else fixed2 r)"

definition example_runtime :: "rat runtime" where
  "example_runtime =
     \<lparr>toLowerCase = map ascii_lower, trim = ascii_trim, Date_ms = iso_number,
      format = utc_format, num_zero = 0, num_add = (+), num_mul = (*),
      toFixed2 = fixed2, String_num = num_string\<rparr>"

text \<open>The order of the scenario: Ana, dine-in, two soups at 5.\<close>

definition example_order :: "rat order" where
  "example_order =
     \<lparr>oid = ''ord_1'', customer = ''Ana'', otype = ''Dine-in'',
      items = [\<lparr>itemId = ''m1'', name = ''Soup'', price = 5, qty = 2\<rparr>],
      status = ''Pending'', assigned = ''Unassigned'',
      createdAt = ''2025-09-23T10:15:00.000Z'', delivery = None,
      paymentType = None, payment = None\<rparr>"

definition example_state :: "rat state" where
  "example_state =
     \<lparr>orders = [example_order], completedOrders = [], query = [],
      statusFilter = ''All'', typeFilter = ''All'', page = 1\<rparr>"

text \<open>The same state after the example order has been archived.\<close>

definition archived_state :: "rat state" where
  "archived_state =
     example_state\<lparr>completedOrders :=
       [\<lparr>snapshot = example_order\<lparr>status := ''Delivered''\<rparr>, completedAt = ''09:30''\<rparr>]\<rparr>"

text \<open>A customer name with a comma and double quotes, and a store holding such an order.\<close>

definition tricky_customer :: string where
  \<open>tricky_customer = ''Smith, "Bob" Jr''\<close>

definition tricky_state :: "rat state" where
  "tricky_state = example_state\<lparr>orders := [example_order\<lparr>customer := tricky_customer\<rparr>]\<rparr>"

definition example_shop :: shop where
  "example_shop =
     \<lparr>shop_name = ''My Restaurant'', shop_address = ''1 Main St'', shop_phone = ''555-0100'',
      taxNumber = [], logo = None\<rparr>"

text \<open>
  The visible subset in the words of the specification: the status filter (All passes
  everything) and the type filter (All passes everything) and a match of the trimmed,
  lower-cased query as a substring of the lower-cased order id, customer name or some
  item name.
\<close>

definition spec_visible :: "'n runtime \<Rightarrow> string \<Rightarrow> string \<Rightarrow> string \<Rightarrow> 'n order \<Rightarrow> bool" where
  "spec_visible rt sf tf qy ord =
     ((sf = ''All'' \<or> status ord = sf) \<and>
      (tf = ''All'' \<or> otype ord = tf) \<and>
      (sublist (toLowerCase rt (trim rt qy)) (toLowerCase rt (oid ord)) \<or>
       sublist (toLowerCase rt (trim rt qy)) (toLowerCase rt (customer ord)) \<or>
       list_ex (\<lambda>it. sublist (toLowerCase rt (trim rt qy)) (toLowerCase rt (name it)))
         (items ord)))"

text \<open>Seven orders created one minute apart, the seventh first, as the store holds them.\<close>

definition numbered_order :: "nat \<Rightarrow> rat order" where
  "numbered_order n =
     example_order\<lparr>oid := ''ord_'' @ dec n,
                    createdAt := ''2025-09-23T10:1'' @ dec n @ '':00.000Z''\<rparr>"

definition seven_orders :: "rat state" where
  "seven_orders = example_state\<lparr>orders := map numbered_order (rev [1..<8])\<rparr>"

text \<open>Three live orders, oldest first in the store, with a query and a type filter set.\<close>

definition pizza_order :: "rat order" where
  "pizza_order =
     example_order\<lparr>oid := ''ord_2'', customer := ''Bob'', otype := ''Takeaway'',
       items := [\<lparr>itemId = ''m2'', name = ''Pizza'', price = 9, qty = 1\<rparr>],
       createdAt := ''2025-09-23T10:20:00.000Z''\<rparr>"

definition sofia_order :: "rat order" where
  "sofia_order =
     example_order\<lparr>oid := ''ord_3'', customer := ''Sofia'',
       items := [\<lparr>itemId = ''m3'', name = ''Cake'', price = 4, qty = 3\<rparr>],
       createdAt := ''2025-09-23T10:25:00.000Z''\<rparr>"

definition mixed_state :: "rat state" where
  "mixed_state =
     \<lparr>orders = [example_order, pizza_order, sofia_order], completedOrders = [],
      query = '' SO '', statusFilter = ''All'', typeFilter = ''Dine-in'', page = 1\<rparr>"

text \<open>An archive of three records on two days, the newest first.\<close>

definition three_completed :: "rat completed list" where
  "three_completed =
     [\<lparr>snapshot = sofia_order\<lparr>status := ''Delivered''\<rparr>,
       completedAt = ''2025-09-24T09:00:00.000Z''\<rparr>,
      \<lparr>snapshot = pizza_order\<lparr>status := ''Delivered''\<rparr>,
       completedAt = ''2025-09-23T12:00:00.000Z''\<rparr>,
      \<lparr>snapshot = example_order\<lparr>status := ''Delivered''\<rparr>,
       completedAt = ''2025-09-23T11:00:00.000Z''\<rparr>]"

text \<open>
  The escaping in the words of the specification: each of the five characters is replaced
  by its entity.
\<close>

definition escape_char :: "char \<Rightarrow> string" where
  "escape_char c =
     (if c = CHR ''&'' then ''&amp;''
      else if c = CHR ''<'' then ''&lt;''
      else if c = CHR ''>'' then ''&gt;''
      else if c = CHR 0x22 then ''&quot;''
      else if c = CHR 0x27 then ''&#039;''
      else [c])"

text \<open>A stored shop profile whose logo text closes the attribute and the tag and whose
  address holds markup.\<close>

definition script_logo_shop :: shop where
  \<open>script_logo_shop =
     example_shop\<lparr>shop_address := ''<b>1 Main St</b>'',
       logo := Some ''x"><script>alert(1)</script>''\<rparr>\<close>

section \<open>Archive and order store: auxiliary facts\<close>

lemma findIndex_None: "findIndex P xs = None \<longleftrightarrow> find P xs = None"
  by (induction xs) auto

lemma findIndex_Some:
  "findIndex P xs = Some n \<Longrightarrow> n < length xs \<and> find P xs = Some (xs ! n)"
  by (induction xs arbitrary: n) (auto split: if_splits)

lemma addCompleted_present:
  "list_ex (\<lambda>c. oid (snapshot c) = oid order) prev \<Longrightarrow> addCompleted now order prev = prev"
  by (simp add: addCompleted_def)

lemma addCompleted_cases:
  "addCompleted now order prev =
     (if oid order \<in> set (map (\<lambda>c. oid (snapshot c)) prev) then prev
      else \<lparr>snapshot = order, completedAt = now\<rparr> # prev)"
  by (force simp: addCompleted_def list_ex_iff)

lemma addCompleted_distinct:
  "distinct (map (\<lambda>c. oid (snapshot c)) prev) \<Longrightarrow>
   distinct (map (\<lambda>c. oid (snapshot c)) (addCompleted now order prev))"
  by (auto simp: addCompleted_cases)

lemma upsertOrder_completed:
  "completedOrders (upsertOrder now order st) =
     (if status order = ''Delivered'' \<and>
         (case find (\<lambda>x. oid x = oid order) (orders st) of
            None \<Rightarrow> True | Some prev \<Rightarrow> status prev \<noteq> ''Delivered'')
      then addCompleted now order (completedOrders st)
      else completedOrders st)"
proof (cases "findIndex (\<lambda>x. oid x = oid order) (orders st)")
  case None
  moreover from None have "find (\<lambda>x. oid x = oid order) (orders st) = None"
    by (simp add: findIndex_None)
  ultimately show ?thesis
    by (simp add: upsertOrder_def)
next
  case (Some n)
  from findIndex_Some [OF Some] show ?thesis
    using Some by (auto simp: upsertOrder_def Let_def)
qed

lemma merge_status_patch: "merge b (status_patch s) = b\<lparr>status := s\<rparr>"
  by (simp add: merge_def status_patch_def)

lemma find_map_same:
  "(\<And>x. P (f x) = P x) \<Longrightarrow> find P (map f xs) = map_option f (find P xs)"
  by (induction xs) auto

lemma onUpdate_completed:
  assumes "p_oid p = None"
  shows "completedOrders (onUpdate now i p st) =
     (case find (\<lambda>x. oid x = i) (orders st) of
        None \<Rightarrow> completedOrders st
      | Some b \<Rightarrow>
          (if status b \<noteq> ''Delivered'' \<and> status (merge b p) = ''Delivered''
           then addCompleted now (merge b p) (completedOrders st)
           else completedOrders st))"
proof -
  have keep: "\<And>x. oid (if oid x = i then merge x p else x) = i \<longleftrightarrow> oid x = i"
    using assms by (simp add: merge_def)
  have "find (\<lambda>x. oid x = i) (map (\<lambda>x. if oid x = i then merge x p else x) (orders st)) =
        map_option (\<lambda>x. if oid x = i then merge x p else x) (find (\<lambda>x. oid x = i) (orders st))"
    by (rule find_map_same) (rule keep)
  then show ?thesis
    by (auto simp: onUpdate_def Let_def split: option.splits dest: find_Some_iff [THEN iffD1])
qed

lemma onUpdate_archive_step:
  "completedOrders (onUpdate now i p st) = completedOrders st \<or>
   (\<exists>a. oid a = i \<and>
      completedOrders (onUpdate now i p st) = addCompleted now a (completedOrders st))"
  by (auto simp: onUpdate_def Let_def split: option.splits dest: find_Some_iff [THEN iffD1])

lemma upsertOrder_archive_step:
  "completedOrders (upsertOrder now order st) = completedOrders st \<or>
   completedOrders (upsertOrder now order st) = addCompleted now order (completedOrders st)"
  by (simp add: upsertOrder_completed)

lemma apply_op_archive_step:
  "completedOrders (apply_op x st) = completedOrders st \<or>
   (\<exists>now a. completedOrders (apply_op x st) = addCompleted now a (completedOrders st))"
proof (cases x)
  case (Upsert now order)
  then show ?thesis using upsertOrder_archive_step [of now order st] by auto
next
  case (Patch now i p)
  then show ?thesis using onUpdate_archive_step [of now i p st] by auto
next
  case (Delete i)
  then show ?thesis by (simp add: deleteOrder_def)
qed

lemma apply_op_distinct:
  "distinct (archived_ids st) \<Longrightarrow> distinct (archived_ids (apply_op x st))"
  using apply_op_archive_step [of x st]
  by (auto simp: archived_ids_def intro: addCompleted_distinct)

lemma run_ops_snoc: "run_ops (ops @ [x]) st = apply_op x (run_ops ops st)"
  by (simp add: run_ops_def)

lemma run_ops_distinct:
  "distinct (archived_ids st) \<Longrightarrow> distinct (archived_ids (run_ops ops st))"
  by (induction ops rule: rev_induct) (simp_all add: run_ops_snoc apply_op_distinct run_ops_def)

lemma addCompleted_filter_present:
  "i \<in> set (map (\<lambda>c. oid (snapshot c)) prev) \<Longrightarrow>
   filter (\<lambda>c. oid (snapshot c) = i) (addCompleted now a prev) =
   filter (\<lambda>c. oid (snapshot c) = i) prev"
  by (auto simp: addCompleted_cases)

lemma addCompleted_ids_mono:
  "set (map (\<lambda>c. oid (snapshot c)) prev) \<subseteq>
   set (map (\<lambda>c. oid (snapshot c)) (addCompleted now a prev))"
  by (auto simp: addCompleted_cases)

lemma apply_op_keeps:
  assumes "i \<in> set (archived_ids st)"
  shows "i \<in> set (archived_ids (apply_op x st)) \<and>
         filter (\<lambda>c. oid (snapshot c) = i) (completedOrders (apply_op x st)) =
         filter (\<lambda>c. oid (snapshot c) = i) (completedOrders st)"
proof -
  from apply_op_archive_step [of x st] show ?thesis
  proof
    assume "completedOrders (apply_op x st) = completedOrders st"
    with assms show ?thesis by (simp add: archived_ids_def)
  next
    assume "\<exists>now a. completedOrders (apply_op x st) = addCompleted now a (completedOrders st)"
    then obtain now a where
      eq: "completedOrders (apply_op x st) = addCompleted now a (completedOrders st)"
      by blast
    from assms have "i \<in> set (map (\<lambda>c. oid (snapshot c)) (completedOrders st))"
      by (simp add: archived_ids_def)
    then show ?thesis
      using addCompleted_ids_mono [of "completedOrders st" now a]
      by (auto simp: eq archived_ids_def addCompleted_filter_present simp del: set_map)
  qed
qed

lemma run_ops_keeps:
  "i \<in> set (archived_ids st) \<Longrightarrow>
   i \<in> set (archived_ids (run_ops ops st)) \<and>
   filter (\<lambda>c. oid (snapshot c) = i) (completedOrders (run_ops ops st)) =
   filter (\<lambda>c. oid (snapshot c) = i) (completedOrders st)"
proof (induction ops rule: rev_induct)
  case Nil
  then show ?case by (simp add: run_ops_def)
next
  case (snoc x ops)
  then show ?case using apply_op_keeps [of i "run_ops ops st" x]
    by (simp add: run_ops_snoc)
qed

lemma onUpdate_archived_same:
  "i \<in> set (archived_ids st) \<Longrightarrow> completedOrders (onUpdate now i p st) = completedOrders st"
  using onUpdate_archive_step [of now i p st]
  by (auto simp: archived_ids_def addCompleted_cases)

lemma upsertOrder_archived_same:
  "oid order \<in> set (archived_ids st) \<Longrightarrow>
   completedOrders (upsertOrder now order st) = completedOrders st"
  using upsertOrder_archive_step [of now order st]
  by (auto simp: archived_ids_def addCompleted_cases)

lemma onUpdate_status:
  assumes "find (\<lambda>x. oid x = i) (orders st) = Some b"
  shows "find (\<lambda>x. oid x = i) (orders (onUpdate now i (status_patch s) st)) =
           Some (b\<lparr>status := s\<rparr>)"
    and "completedOrders (onUpdate now i (status_patch s) st) =
           (if status b \<noteq> ''Delivered'' \<and> s = ''Delivered''
            then addCompleted now (b\<lparr>status := s\<rparr>) (completedOrders st)
            else completedOrders st)"
proof -
  have keep: "\<And>x. oid (if oid x = i then merge x (status_patch s) else x) = i \<longleftrightarrow> oid x = i"
    by (simp add: merge_status_patch)
  have "find (\<lambda>x. oid x = i)
          (map (\<lambda>x. if oid x = i then merge x (status_patch s) else x) (orders st)) =
        map_option (\<lambda>x. if oid x = i then merge x (status_patch s) else x)
          (find (\<lambda>x. oid x = i) (orders st))"
    by (rule find_map_same) (rule keep)
  moreover from assms have "oid b = i"
    by (auto simp: find_Some_iff)
  ultimately show "find (\<lambda>x. oid x = i) (orders (onUpdate now i (status_patch s) st)) =
           Some (b\<lparr>status := s\<rparr>)"
    using assms by (simp add: onUpdate_def Let_def merge_status_patch)
  show "completedOrders (onUpdate now i (status_patch s) st) =
           (if status b \<noteq> ''Delivered'' \<and> s = ''Delivered''
            then addCompleted now (b\<lparr>status := s\<rparr>) (completedOrders st)
            else completedOrders st)"
  proof -
    have "p_oid (status_patch s) = None" by (simp add: status_patch_def)
    from onUpdate_completed [OF this, of now i st] assms show ?thesis
      by (simp add: merge_status_patch)
  qed
qed

lemma status_sequence:
  assumes live: "find (\<lambda>x. oid x = i) (orders st) = Some b"
    and pend: "status b = ''Pending''"
    and fresh: "i \<notin> set (archived_ids st)"
  shows "completedOrders
           (run_ops [Patch t1 i (status_patch ''Preparing''),
                     Patch t2 i (status_patch ''Delivered''),
                     Patch t3 i (status_patch ''Pending''),
                     Patch t4 i (status_patch ''Delivered'')] st) =
         \<lparr>snapshot = b\<lparr>status := ''Delivered''\<rparr>, completedAt = t2\<rparr> # completedOrders st"
proof -
  let ?s1 = "onUpdate t1 i (status_patch ''Preparing'') st"
  let ?s2 = "onUpdate t2 i (status_patch ''Delivered'') ?s1"
  let ?s3 = "onUpdate t3 i (status_patch ''Pending'') ?s2"
  let ?s4 = "onUpdate t4 i (status_patch ''Delivered'') ?s3"
  let ?r = "\<lparr>snapshot = b\<lparr>status := ''Delivered''\<rparr>, completedAt = t2\<rparr>"
  from live have idb: "oid b = i" by (auto simp: find_Some_iff)
  have f1: "find (\<lambda>x. oid x = i) (orders ?s1) = Some (b\<lparr>status := ''Preparing''\<rparr>)"
    and c1: "completedOrders ?s1 = completedOrders st"
    using onUpdate_status [OF live, of t1 "''Preparing''"] by simp_all
  have f2: "find (\<lambda>x. oid x = i) (orders ?s2) = Some (b\<lparr>status := ''Delivered''\<rparr>)"
    and c2: "completedOrders ?s2 = ?r # completedOrders st"
    using onUpdate_status [OF f1, of t2 "''Delivered''"] fresh idb
    by (simp_all add: c1 addCompleted_cases archived_ids_def)
  have f3: "find (\<lambda>x. oid x = i) (orders ?s3) = Some (b\<lparr>status := ''Pending''\<rparr>)"
    and c3: "completedOrders ?s3 = ?r # completedOrders st"
    using onUpdate_status [OF f2, of t3 "''Pending''"] by (simp_all add: c2)
  have c4: "completedOrders ?s4 = ?r # completedOrders st"
    using onUpdate_status(2) [OF f3, of t4 "''Delivered''"] idb
    by (simp add: c3 addCompleted_cases)
  then show ?thesis by (simp add: run_ops_def)
qed


lemma distinct_filter_one:
  "distinct (map f xs) \<Longrightarrow> i \<in> set (map f xs) \<Longrightarrow> length (filter (\<lambda>c. f c = i) xs) = 1"
proof (induction xs)
  case Nil
  then show ?case by simp
next
  case (Cons x xs)
  show ?case
  proof (cases "f x = i")
    case True
    with Cons.prems have "filter (\<lambda>c. f c = i) xs = []"
      by (auto simp: filter_empty_conv) (metis imageI)
    with True show ?thesis by simp
  next
    case False
    with Cons show ?thesis by auto
  qed
qed

lemma run_ops_one_record:
  assumes "i \<in> set (archived_ids st)" and "distinct (archived_ids st)"
  shows "length (filter (\<lambda>c. oid (snapshot c) = i) (completedOrders (run_ops ops st))) = 1"
proof -
  have "length (filter (\<lambda>c. oid (snapshot c) = i) (completedOrders st)) = 1"
    using assms by (simp add: archived_ids_def distinct_filter_one)
  with run_ops_keeps [OF assms(1), of ops] show ?thesis
    by simp
qed

section \<open>Claims about the completion archive and the order store\<close>

text \<open>
  Claim C1. An archive record is created once per order id. \<open>addCompleted\<close> leaves the
  archive as it is when the id is already there. \<open>upsertOrder\<close> archives exactly when the
  saved order is Delivered and it is new or its stored status was not Delivered;
  \<open>onUpdate\<close> (with a patch that keeps the id) archives exactly when the patched status is
  Delivered and the status before was not. No run of upserts, patches and deletions puts
  two records of one id into an archive that had none. The status sequence Pending,
  Preparing, Delivered, Pending, Delivered on a live order that is not yet archived adds
  exactly one record: the snapshot of the first transition to Delivered, with its time.
  Once an id is archived, any further run of such operations leaves exactly one record of
  it.
\<close>

theorem archive_record_created_once:
  "(list_ex (\<lambda>c. oid (snapshot c) = oid order) prev \<longrightarrow>
      addCompleted now order prev = prev) \<and>
   completedOrders (upsertOrder now order st) =
     (if status order = ''Delivered'' \<and>
         (case find (\<lambda>x. oid x = oid order) (orders st) of
            None \<Rightarrow> True | Some old \<Rightarrow> status old \<noteq> ''Delivered'')
      then addCompleted now order (completedOrders st)
      else completedOrders st) \<and>
   (p_oid p = None \<longrightarrow>
      completedOrders (onUpdate now j p st) =
        (case find (\<lambda>x. oid x = j) (orders st) of
           None \<Rightarrow> completedOrders st
         | Some old \<Rightarrow>
             (if status old \<noteq> ''Delivered'' \<and> status (merge old p) = ''Delivered''
              then addCompleted now (merge old p) (completedOrders st)
              else completedOrders st))) \<and>
   (distinct (archived_ids st) \<longrightarrow> distinct (archived_ids (run_ops ops st))) \<and>
   (k \<in> set (archived_ids st) \<and> distinct (archived_ids st) \<longrightarrow>
      length (filter (\<lambda>c. oid (snapshot c) = k) (completedOrders (run_ops ops st))) = 1) \<and>
   (find (\<lambda>x. oid x = i) (orders st) = Some b \<and> status b = ''Pending'' \<and>
    i \<notin> set (archived_ids st) \<longrightarrow>
      completedOrders
        (run_ops [Patch t1 i (status_patch ''Preparing''),
                  Patch t2 i (status_patch ''Delivered''),
                  Patch t3 i (status_patch ''Pending''),
                  Patch t4 i (status_patch ''Delivered'')] st) =
        \<lparr>snapshot = b\<lparr>status := ''Delivered''\<rparr>, completedAt = t2\<rparr> # completedOrders st \<and>
      length (filter (\<lambda>c. oid (snapshot c) = i)
        (completedOrders
          (run_ops [Patch t1 i (status_patch ''Preparing''),
                    Patch t2 i (status_patch ''Delivered''),
                    Patch t3 i (status_patch ''Pending''),
                    Patch t4 i (status_patch ''Delivered'')] st))) = 1)"
proof -
  have seq: "length (filter (\<lambda>c. oid (snapshot c) = i)
        (completedOrders
          (run_ops [Patch t1 i (status_patch ''Preparing''),
                    Patch t2 i (status_patch ''Delivered''),
                    Patch t3 i (status_patch ''Pending''),
                    Patch t4 i (status_patch ''Delivered'')] st))) = 1"
    if live: "find (\<lambda>x. oid x = i) (orders st) = Some b"
      and pend: "status b = ''Pending''"
      and fresh: "i \<notin> set (archived_ids st)"
  proof -
    from live have "oid b = i" by (auto simp: find_Some_iff)
    moreover from fresh have "filter (\<lambda>c. oid (snapshot c) = i) (completedOrders st) = []"
      by (auto simp: archived_ids_def filter_empty_conv)
    ultimately show ?thesis
      by (simp add: status_sequence [OF live pend fresh])
  qed
  show ?thesis
    using addCompleted_present [of order prev now] upsertOrder_completed [of now order st]
      onUpdate_completed [of p now j st] run_ops_distinct [of st ops]
      run_ops_one_record [of k st ops] status_sequence [of i st b t1 t2 t3 t4] seq
    by blast
qed

theorem archive_record_created_once_witness:
  "find (\<lambda>x. oid x = ''ord_1'') (orders example_state) = Some example_order \<and>
   status example_order = ''Pending'' \<and>
   ''ord_1'' \<notin> set (archived_ids example_state) \<and>
   distinct (archived_ids example_state) \<and>
   completedOrders
     (run_ops [Patch ''09:00'' ''ord_1'' (status_patch ''Preparing''),
               Patch ''09:30'' ''ord_1'' (status_patch ''Delivered''),
               Patch ''09:40'' ''ord_1'' (status_patch ''Pending''),
               Patch ''09:50'' ''ord_1'' (status_patch ''Delivered'')] example_state) =
     [\<lparr>snapshot = example_order\<lparr>status := ''Delivered''\<rparr>, completedAt = ''09:30''\<rparr>] \<and>
   addCompleted ''10:00'' example_order
     [\<lparr>snapshot = example_order\<lparr>status := ''Delivered''\<rparr>, completedAt = ''09:30''\<rparr>] =
     [\<lparr>snapshot = example_order\<lparr>status := ''Delivered''\<rparr>, completedAt = ''09:30''\<rparr>] \<and>
   completedOrders (onUpdate ''10:00'' ''ord_1'' (status_patch ''Delivered'') example_state) =
     [\<lparr>snapshot = example_order\<lparr>status := ''Delivered''\<rparr>, completedAt = ''10:00''\<rparr>] \<and>
   length (filter (\<lambda>c. oid (snapshot c) = ''ord_1'')
     (completedOrders
        (run_ops [Upsert ''11:00'' (example_order\<lparr>status := ''Pending''\<rparr>),
                  Upsert ''11:10'' (example_order\<lparr>status := ''Delivered''\<rparr>),
                  Delete ''ord_1''] archived_state))) = 1"
proof -
  have h: "find (\<lambda>x. oid x = ''ord_1'') (orders example_state) = Some example_order \<and>
      status example_order = ''Pending'' \<and> ''ord_1'' \<notin> set (archived_ids example_state)"
    by (simp add: example_state_def example_order_def archived_ids_def)
  have d: "distinct (archived_ids example_state)"
    by (simp add: example_state_def archived_ids_def)
  have p: "list_ex (\<lambda>c. oid (snapshot c) = oid example_order)
      [\<lparr>snapshot = example_order\<lparr>status := ''Delivered''\<rparr>, completedAt = ''09:30''\<rparr>]"
    by simp
  have q: "p_oid (status_patch ''Delivered'') = None"
    by (simp add: status_patch_def)
  have k: "''ord_1'' \<in> set (archived_ids archived_state) \<and>
      distinct (archived_ids archived_state)"
    by (simp add: archived_state_def archived_ids_def example_order_def)
  note T = archive_record_created_once [where i = "''ord_1''"
        and b = example_order and ?t1.0 = "''09:00''" and ?t2.0 = "''09:30''"
        and ?t3.0 = "''09:40''" and ?t4.0 = "''09:50''" and order = example_order
        and now = "''10:00''" and j = "''ord_1''" and p = "status_patch ''Delivered''"
        and prev = "[\<lparr>snapshot = example_order\<lparr>status := ''Delivered''\<rparr>,
                      completedAt = ''09:30''\<rparr>]"]
  from T [where st = example_state] h
  have s: "completedOrders
     (run_ops [Patch ''09:00'' ''ord_1'' (status_patch ''Preparing''),
               Patch ''09:30'' ''ord_1'' (status_patch ''Delivered''),
               Patch ''09:40'' ''ord_1'' (status_patch ''Pending''),
               Patch ''09:50'' ''ord_1'' (status_patch ''Delivered'')] example_state) =
     \<lparr>snapshot = example_order\<lparr>status := ''Delivered''\<rparr>, completedAt = ''09:30''\<rparr> #
     completedOrders example_state"
    by blast
  from T [where st = example_state] p
  have a: "addCompleted ''10:00'' example_order
     [\<lparr>snapshot = example_order\<lparr>status := ''Delivered''\<rparr>, completedAt = ''09:30''\<rparr>] =
     [\<lparr>snapshot = example_order\<lparr>status := ''Delivered''\<rparr>, completedAt = ''09:30''\<rparr>]"
    by blast
  from T [where st = example_state] q
  have "completedOrders (onUpdate ''10:00'' ''ord_1'' (status_patch ''Delivered'') example_state) =
      (case find (\<lambda>x. oid x = ''ord_1'') (orders example_state) of
         None \<Rightarrow> completedOrders example_state
       | Some old \<Rightarrow>
           (if status old \<noteq> ''Delivered'' \<and>
               status (merge old (status_patch ''Delivered'')) = ''Delivered''
            then addCompleted ''10:00'' (merge old (status_patch ''Delivered''))
                   (completedOrders example_state)
            else completedOrders example_state))"
    by blast
  then have u: "completedOrders
      (onUpdate ''10:00'' ''ord_1'' (status_patch ''Delivered'') example_state) =
     [\<lparr>snapshot = example_order\<lparr>status := ''Delivered''\<rparr>, completedAt = ''10:00''\<rparr>]"
    by (simp add: example_state_def example_order_def merge_def status_patch_def
        addCompleted_def)
  from T [where st = archived_state and k = "''ord_1''"
      and ops = "[Upsert ''11:00'' (example_order\<lparr>status := ''Pending''\<rparr>),
                  Upsert ''11:10'' (example_order\<lparr>status := ''Delivered''\<rparr>),
                  Delete ''ord_1'']"] k
  have o: "length (filter (\<lambda>c. oid (snapshot c) = ''ord_1'')
     (completedOrders
        (run_ops [Upsert ''11:00'' (example_order\<lparr>status := ''Pending''\<rparr>),
                  Upsert ''11:10'' (example_order\<lparr>status := ''Delivered''\<rparr>),
                  Delete ''ord_1''] archived_state))) = 1"
    by blast
  have e: "completedOrders example_state = []"
    by (simp add: example_state_def)
  from h d s a u o show ?thesis
    by (simp only: e simp_thms)
qed

text \<open>
  Claim C2. Once an order is archived, editing the live order through \<open>onUpdate\<close> (any
  patch) or through \<open>upsertOrder\<close> (any order with that id) leaves the whole archive as it
  is, and no run of upserts, patches and deletions changes or removes the records of that
  id. The archive holds values of its own: every later write to the order store builds new
  orders and never reaches into a stored record.
\<close>

theorem archived_snapshot_unchanged:
  assumes "i \<in> set (archived_ids st)"
  shows "completedOrders (onUpdate now i p st) = completedOrders st \<and>
         (oid order = i \<longrightarrow> completedOrders (upsertOrder now order st) = completedOrders st) \<and>
         filter (\<lambda>c. oid (snapshot c) = i) (completedOrders (run_ops ops st)) =
           filter (\<lambda>c. oid (snapshot c) = i) (completedOrders st)"
  using assms onUpdate_archived_same [of i st now p] upsertOrder_archived_same [of order st now]
    run_ops_keeps [of i st ops]
  by blast

theorem archived_snapshot_unchanged_witness:
  "''ord_1'' \<in> set (archived_ids archived_state) \<and>
   customer (hd (orders (onUpdate ''11:00'' ''ord_1''
      ((status_patch ''Ready'')\<lparr>p_customer := Some ''Bea''\<rparr>) archived_state))) = ''Bea'' \<and>
   completedOrders (onUpdate ''11:00'' ''ord_1''
      ((status_patch ''Ready'')\<lparr>p_customer := Some ''Bea''\<rparr>) archived_state) =
     [\<lparr>snapshot = example_order\<lparr>status := ''Delivered''\<rparr>, completedAt = ''09:30''\<rparr>] \<and>
   completedOrders (upsertOrder ''11:00'' (example_order\<lparr>customer := ''Bea''\<rparr>) archived_state) =
     [\<lparr>snapshot = example_order\<lparr>status := ''Delivered''\<rparr>, completedAt = ''09:30''\<rparr>]"
proof -
  have h: "''ord_1'' \<in> set (archived_ids archived_state)"
    by (simp add: archived_state_def example_order_def archived_ids_def)
  have i: "oid (example_order\<lparr>customer := ''Bea''\<rparr>) = ''ord_1''"
    by (simp add: example_order_def)
  have c: "customer (hd (orders (onUpdate ''11:00'' ''ord_1''
      ((status_patch ''Ready'')\<lparr>p_customer := Some ''Bea''\<rparr>) archived_state))) = ''Bea''"
    by (simp add: onUpdate_def archived_state_def example_state_def example_order_def
        merge_def status_patch_def)
  have e: "completedOrders archived_state =
     [\<lparr>snapshot = example_order\<lparr>status := ''Delivered''\<rparr>, completedAt = ''09:30''\<rparr>]"
    by (simp add: archived_state_def)
  show ?thesis
    using h i c e
      archived_snapshot_unchanged [OF h, where now = "''11:00''"
        and p = "(status_patch ''Ready'')\<lparr>p_customer := Some ''Bea''\<rparr>"
        and order = "example_order\<lparr>customer := ''Bea''\<rparr>"]
    by simp
qed

text \<open>
  Claim C3. Deleting a live order removes the orders with that id from the order list and
  leaves the archive as it is; removing one archive record, removing a day of records and
  clearing the archive leave the order list as it is.
\<close>

theorem delete_and_archive_independent:
  "orders (deleteOrder i st) = filter (\<lambda>x. oid x \<noteq> i) (orders st) \<and>
   completedOrders (deleteOrder i st) = completedOrders st \<and>
   orders (removeCompleted j st) = orders st \<and>
   orders (removeCompletedDay rt d st) = orders st \<and>
   orders (clearCompleted confirmed st) = orders st"
  by (simp add: deleteOrder_def removeCompleted_def removeCompletedDay_def clearCompleted_def)

theorem delete_and_archive_independent_witness:
  "orders (deleteOrder ''ord_1'' archived_state) = [] \<and>
   completedOrders (deleteOrder ''ord_1'' archived_state) = completedOrders archived_state \<and>
   orders (removeCompleted ''ord_1'' archived_state) = [example_order] \<and>
   orders (removeCompletedDay example_runtime ''2025-09-23'' archived_state) = [example_order] \<and>
   orders (clearCompleted True archived_state) = [example_order]"
proof -
  have o: "orders archived_state = [example_order]"
    by (simp add: archived_state_def example_state_def)
  have i: "oid example_order = ''ord_1''"
    by (simp add: example_order_def)
  show ?thesis
    using delete_and_archive_independent [of "''ord_1''" archived_state "''ord_1''"
        example_runtime "''2025-09-23''" True]
    by (simp add: o i)
qed

section \<open>CSV export: auxiliary facts\<close>

lemma join_Cons: "join sep (x # xs) = x @ concat (map (\<lambda>y. sep @ y) xs)"
  by (induction sep "x # xs" arbitrary: x xs rule: join.induct) simp_all

lemma csv_quoted_body:
  "foldl csv_step (Quoted, f, r, rs) (replace_all (CHR 0x22) [CHR 0x22, CHR 0x22] c) =
   (Quoted, f @ c, r, rs)"
  by (induction c arbitrary: f) (simp_all add: replace_all_def)

lemma csv_quote_cell:
  "foldl csv_step (FieldStart, f, r, rs) (quote_cell c) = (QuoteSeen, c, r, rs)"
  by (simp add: quote_cell_def csv_quoted_body)

lemma csv_more_cells:
  "foldl csv_step (QuoteSeen, f, r, rs) (concat (map (\<lambda>y. CHR '','' # quote_cell y) cs)) =
   (QuoteSeen, last (f # cs), r @ butlast (f # cs), rs)"
  by (induction cs arbitrary: f r) (simp_all add: csv_quote_cell)

lemma csv_row_line:
  "cells \<noteq> [] \<Longrightarrow>
   foldl csv_step (FieldStart, f, r, rs) (join '','' (map quote_cell cells)) =
   (QuoteSeen, last cells, r @ butlast cells, rs)"
  by (cases cells) (simp_all add: join_Cons csv_quote_cell csv_more_cells comp_def)

lemma csv_rows:
  assumes "m = Unquoted \<or> m = QuoteSeen" and "\<forall>l \<in> set rows. l \<noteq> []"
  shows "csv_finish (foldl csv_step (m, f, r, rs)
           (concat (map (\<lambda>l. [CHR 0x0A] @ join '','' (map quote_cell l)) rows))) =
         rs @ (r @ [f]) # rows"
  using assms
proof (induction rows arbitrary: m f r rs)
  case Nil
  then show ?case by auto
next
  case (Cons l rows)
  from Cons.prems have l: "l \<noteq> []" by simp
  have step: "csv_step (m, f, r, rs) (CHR 0x0A) = (FieldStart, [], [], rs @ [r @ [f]])"
    using Cons.prems(1) by auto
  have "csv_finish (foldl csv_step (QuoteSeen, last l, [] @ butlast l, rs @ [r @ [f]])
           (concat (map (\<lambda>l. [CHR 0x0A] @ join '','' (map quote_cell l)) rows))) =
         (rs @ [r @ [f]]) @ (([] @ butlast l) @ [last l]) # rows"
    using Cons.prems by (intro Cons.IH) simp_all
  then show ?case
    using l by (simp add: step csv_row_line)
qed

lemma csv_header:
  "foldl csv_step (FieldStart, [], [], []) (join '','' headers) =
   (Unquoted, last headers, butlast headers, [])"
  by (simp add: headers_def)

lemma csv_row_nonempty: "csv_row rt ord \<noteq> []"
  by (simp add: csv_row_def Let_def)

lemma csv_read_downloadCSV:
  "csv_read (downloadCSV rt st) = headers # map (csv_row rt) (orders st)"
proof -
  have h: "headers \<noteq> []" by (simp add: headers_def)
  have "csv_finish (foldl csv_step (Unquoted, last headers, butlast headers, [])
           (concat (map (\<lambda>l. [CHR 0x0A] @ join '','' (map quote_cell l))
              (map (csv_row rt) (orders st))))) =
        [] @ (butlast headers @ [last headers]) # map (csv_row rt) (orders st)"
    by (rule csv_rows) (simp_all add: csv_row_nonempty)
  then show ?thesis
    using h by (simp add: csv_read_def downloadCSV_def Let_def join_Cons csv_header comp_def)
qed

lemma quote_cell_shape:
  "quote_cell c =
     [CHR 0x22] @ concat (map (\<lambda>x. if x = CHR 0x22 then [CHR 0x22, CHR 0x22] else [x]) c) @
     [CHR 0x22]"
  by (simp add: quote_cell_def replace_all_def)

lemma header_line:
  "join '','' headers =
     ''id,customer,type,status,assigned,createdAt,items,total,delivery_name,delivery_phone,delivery_address,delivery_note''"
  by (simp add: headers_def)

lemma downloadCSV_text:
  "downloadCSV rt st =
     join '','' headers @
     concat (map (\<lambda>ord. [CHR 0x0A] @ join '','' (map quote_cell (csv_row rt ord))) (orders st))"
  by (simp add: downloadCSV_def Let_def join_Cons comp_def)

lemma takeWhile_first_line:
  "CHR 0x0A \<notin> set h \<Longrightarrow>
   takeWhile (\<lambda>x. x \<noteq> CHR 0x0A) (h @ concat (map (\<lambda>y. [CHR 0x0A] @ f y) ys)) = h"
  by (cases ys) (auto simp: takeWhile_tail)

section \<open>Claims about the CSV export\<close>

text \<open>
  Claim C8. CSV quoting round-trips. Reading the exported text with the RFC 4180 reader
  gives back the header names and, for every live order, its twelve cell values: each
  cell is wrapped in double quotes with the double quotes inside doubled, so a customer
  name with commas and double quotes comes back as the original string. The text has one
  row per live order and does not depend on the archive.
\<close>

theorem csv_quoting_round_trips:
  "csv_read (downloadCSV rt st) = headers # map (csv_row rt) (orders st) \<and>
   (\<forall>k < length (orders st).
      csv_read (downloadCSV rt st) ! Suc k ! 1 = customer (orders st ! k)) \<and>
   downloadCSV rt (st\<lparr>completedOrders := cs\<rparr>) = downloadCSV rt st \<and>
   quote_cell c =
     [CHR 0x22] @ concat (map (\<lambda>x. if x = CHR 0x22 then [CHR 0x22, CHR 0x22] else [x]) c) @
     [CHR 0x22]"
proof -
  have "csv_row rt ord ! 1 = customer ord" for ord
    by (simp add: csv_row_def Let_def)
  moreover have "downloadCSV rt (st\<lparr>completedOrders := cs\<rparr>) = downloadCSV rt st"
    by (simp add: downloadCSV_def)
  ultimately show ?thesis
    by (simp add: csv_read_downloadCSV quote_cell_shape)
qed

theorem csv_quoting_round_trips_witness:
  "CHR '','' \<in> set tricky_customer \<and> CHR 0x22 \<in> set tricky_customer \<and>
   0 < length (orders tricky_state) \<and>
   customer (orders tricky_state ! 0) = tricky_customer \<and>
   csv_read (downloadCSV example_runtime tricky_state) ! Suc 0 ! 1 = tricky_customer"
proof -
  have a: "CHR '','' \<in> set tricky_customer \<and> CHR 0x22 \<in> set tricky_customer"
    by (simp add: tricky_customer_def)
  have b: "0 < length (orders tricky_state) \<and>
      customer (orders tricky_state ! 0) = tricky_customer"
    by (simp add: tricky_state_def)
  from csv_quoting_round_trips [of example_runtime tricky_state]
  have "\<forall>k < length (orders tricky_state).
      csv_read (downloadCSV example_runtime tricky_state) ! Suc k ! 1 =
      customer (orders tricky_state ! k)"
    by blast
  with b have "csv_read (downloadCSV example_runtime tricky_state) ! Suc 0 ! 1 =
      customer (orders tricky_state ! 0)"
    by blast
  with a b show ?thesis
    by simp
qed

text \<open>
  Claim C10. The export quotes without condition. The text is the bare header names
  joined by commas, followed for every order by a line break and its cells, each cell
  wrapped in double quotes with the double quotes inside doubled, also a cell such as
  \<open>Ana\<close> that holds no comma and no quote. The first line is the unquoted header.
\<close>

theorem csv_quotes_every_data_cell:
  "downloadCSV rt st =
     ''id,customer,type,status,assigned,createdAt,items,total,delivery_name,delivery_phone,delivery_address,delivery_note'' @
     concat (map (\<lambda>ord. [CHR 0x0A] @ join '','' (map quote_cell (csv_row rt ord))) (orders st)) \<and>
   takeWhile (\<lambda>x. x \<noteq> CHR 0x0A) (downloadCSV rt st) =
     ''id,customer,type,status,assigned,createdAt,items,total,delivery_name,delivery_phone,delivery_address,delivery_note'' \<and>
   quote_cell c =
     [CHR 0x22] @ concat (map (\<lambda>x. if x = CHR 0x22 then [CHR 0x22, CHR 0x22] else [x]) c) @
     [CHR 0x22] \<and>
   quote_cell ''Ana'' = [CHR 0x22] @ ''Ana'' @ [CHR 0x22]"
proof -
  have "takeWhile (\<lambda>x. x \<noteq> CHR 0x0A) (downloadCSV rt st) = join '','' headers"
    unfolding downloadCSV_text
    by (rule takeWhile_first_line) (simp add: header_line)
  then show ?thesis
    by (simp add: downloadCSV_text [of rt st] header_line quote_cell_shape)
qed


theorem csv_quotes_every_data_cell_witness:
  "downloadCSV example_runtime example_state =
     ''id,customer,type,status,assigned,createdAt,items,total,delivery_name,delivery_phone,delivery_address,delivery_note'' @
     [CHR 0x0A] @
     join '',''
       (map (\<lambda>c. [CHR 0x22] @ c @ [CHR 0x22])
         [''ord_1'', ''Ana'', ''Dine-in'', ''Pending'', ''Unassigned'',
          ''2025-09-23T10:15:00.000Z'', ''Soup x2'', ''10.00'', [], [], [], []])"
proof -
  have row: "join '','' (map quote_cell (csv_row example_runtime example_order)) =
      join '',''
       (map (\<lambda>c. [CHR 0x22] @ c @ [CHR 0x22])
         [''ord_1'', ''Ana'', ''Dine-in'', ''Pending'', ''Unassigned'',
          ''2025-09-23T10:15:00.000Z'', ''Soup x2'', ''10.00'', [], [], [], []])"
    by code_simp
  have o: "orders example_state = [example_order]"
    by (simp add: example_state_def)
  from csv_quotes_every_data_cell [of example_runtime example_state "[]"]
  have "downloadCSV example_runtime example_state =
     ''id,customer,type,status,assigned,createdAt,items,total,delivery_name,delivery_phone,delivery_address,delivery_note'' @
     concat (map (\<lambda>ord. [CHR 0x0A] @ join '','' (map quote_cell (csv_row example_runtime ord)))
       (orders example_state))"
    by blast
  then show ?thesis
    by (simp add: o row)
qed

lemma insort_cmp_key:
  "insort_cmp (\<lambda>a b. k b - k a) x ys = insort_key (\<lambda>x. - k x) x ys"
  for k :: "'a \<Rightarrow> int"
  by (induction ys) simp_all

lemma js_sort_key:
  "js_sort (\<lambda>a b. k b - k a) xs = sort_key (\<lambda>x. - k x) xs"
  for k :: "'a \<Rightarrow> int"
  by (induction xs) (simp_all add: js_sort_def sort_key_def insort_cmp_key)

lemma query_guard:
  "(if q = [] then True
    else str_includes a q \<or> str_includes b q \<or> list_ex (\<lambda>it. str_includes (f it) q) its) =
   (sublist q a \<or> sublist q b \<or> list_ex (\<lambda>it. sublist q (f it)) its)"
  by (simp add: str_includes_def)

lemma filtered_spec:
  "filtered rt st =
     sort_key (\<lambda>x. - Date_ms rt (createdAt x))
       (filter (spec_visible rt (statusFilter st) (typeFilter st) (query st)) (orders st))"
proof -
  have "filter (\<lambda>ord.
             if toLowerCase rt (trim rt (query st)) = [] then True
             else str_includes (toLowerCase rt (oid ord)) (toLowerCase rt (trim rt (query st))) \<or>
                  str_includes (toLowerCase rt (customer ord)) (toLowerCase rt (trim rt (query st))) \<or>
                  list_ex (\<lambda>it. str_includes (toLowerCase rt (name it))
                     (toLowerCase rt (trim rt (query st)))) (items ord))
          (filter (\<lambda>ord. if typeFilter st = ''All'' then True else otype ord = typeFilter st)
            (filter (\<lambda>ord. if statusFilter st = ''All'' then True
                             else status ord = statusFilter st)
              (orders st))) =
        filter (spec_visible rt (statusFilter st) (typeFilter st) (query st)) (orders st)"
    unfolding query_guard spec_visible_def filter_filter
    by (rule filter_cong) auto
  then show ?thesis
    by (simp add: filtered_def Let_def js_sort_key)
qed

lemma filtered_sorted:
  "sorted_wrt (\<lambda>a b. Date_ms rt (createdAt b) \<le> Date_ms rt (createdAt a)) (filtered rt st)"
proof -
  have "sorted (map (\<lambda>x. - Date_ms rt (createdAt x)) (filtered rt st))"
    by (simp add: filtered_spec)
  then show ?thesis
    by (simp add: sorted_map)
qed

section \<open>Claims about the filter, search and pagination pipeline\<close>

text \<open>
  Claim C5. The visible orders are a function of the order list, the two filters and the
  query alone: the orders that pass the status filter and the type filter and whose id,
  customer name or some item name contains the trimmed query, compared without regard to
  case, sorted by \<^verbatim>\<open>createdAt\<close> descending with ties in store order. States that agree on
  these four inputs have the same visible list.
\<close>

theorem visible_orders_pure_filter_sort:
  "filtered rt st =
     sort_key (\<lambda>x. - Date_ms rt (createdAt x))
       (filter (spec_visible rt (statusFilter st) (typeFilter st) (query st)) (orders st)) \<and>
   set (filtered rt st) =
     {x \<in> set (orders st). spec_visible rt (statusFilter st) (typeFilter st) (query st) x} \<and>
   length (filtered rt st) =
     length (filter (spec_visible rt (statusFilter st) (typeFilter st) (query st)) (orders st)) \<and>
   sorted_wrt (\<lambda>a b. Date_ms rt (createdAt b) \<le> Date_ms rt (createdAt a)) (filtered rt st) \<and>
   (orders st' = orders st \<and> statusFilter st' = statusFilter st \<and>
    typeFilter st' = typeFilter st \<and> query st' = query st \<longrightarrow>
      filtered rt st' = filtered rt st)"
  using filtered_sorted [of rt st]
  by (auto simp: filtered_spec)

theorem visible_orders_pure_filter_sort_witness:
  "filtered example_runtime (mixed_state\<lparr>page := 3\<rparr>) = [sofia_order, example_order]"
proof -
  have a: "orders (mixed_state\<lparr>page := 3\<rparr>) = orders mixed_state \<and>
      statusFilter (mixed_state\<lparr>page := 3\<rparr>) = statusFilter mixed_state \<and>
      typeFilter (mixed_state\<lparr>page := 3\<rparr>) = typeFilter mixed_state \<and>
      query (mixed_state\<lparr>page := 3\<rparr>) = query mixed_state"
    by simp
  have v: "filtered example_runtime mixed_state = [sofia_order, example_order]"
    by code_simp
  from visible_orders_pure_filter_sort [of example_runtime mixed_state "mixed_state\<lparr>page := 3\<rparr>"] a
  have "filtered example_runtime (mixed_state\<lparr>page := 3\<rparr>) =
      filtered example_runtime mixed_state"
    by blast
  then show ?thesis
    by (simp add: v)
qed

lemma ceiling_div_perPage:
  "\<lceil>(of_nat n :: rat) / of_int perPage\<rceil> = (int n + 5) div 6"
proof -
  have "\<lceil>(of_int (int n) :: rat) / of_int perPage\<rceil> = - (- int n div perPage)"
    by (rule ceiling_divide_eq_div)
  moreover have "- (- int n div 6) = (int n + 5) div 6"
    by presburger
  ultimately show ?thesis
    by (simp add: perPage_def)
qed

lemma pagination_facts:
  "totalPages rt st = max 1 ((int (length (filtered rt st)) + 5) div 6) \<and>
   1 \<le> totalPages rt st \<and>
   page (setQuery v st) = 1 \<and> page (setStatusFilter v st) = 1 \<and>
   page (setTypeFilter v st) = 1 \<and>
   (1 \<le> page st \<and> page st \<le> totalPages rt st \<longrightarrow>
      1 \<le> page (prevPage st) \<and> page (prevPage st) \<le> totalPages rt (prevPage st) \<and>
      1 \<le> page (nextPage rt st) \<and> page (nextPage rt st) \<le> totalPages rt (nextPage rt st))"
proof -
  have f: "filtered rt (st\<lparr>page := p\<rparr>) = filtered rt st" for p
    by (simp add: filtered_def)
  have t: "totalPages rt (st\<lparr>page := p\<rparr>) = totalPages rt st" for p
    by (simp add: totalPages_def f)
  have tp: "totalPages rt st = max 1 ((int (length (filtered rt st)) + 5) div 6)"
    by (simp only: totalPages_def ceiling_div_perPage)
  have ge: "1 \<le> totalPages rt st"
    by (simp add: totalPages_def)
  have resets: "page (setQuery v st) = 1 \<and> page (setStatusFilter v st) = 1 \<and>
      page (setTypeFilter v st) = 1"
    by (simp add: setQuery_def setStatusFilter_def setTypeFilter_def)
  have nav: "1 \<le> page (prevPage st) \<and> page (prevPage st) \<le> totalPages rt (prevPage st) \<and>
      1 \<le> page (nextPage rt st) \<and> page (nextPage rt st) \<le> totalPages rt (nextPage rt st)"
    if "1 \<le> page st \<and> page st \<le> totalPages rt st"
    using that by (simp add: prevPage_def nextPage_def t)
  from tp ge resets nav show ?thesis
    by blast
qed

text \<open>
  Claim C6 at a state the dashboard reaches: seven orders, Next pressed once, then the one
  order shown on page 2 deleted. The page stays 2 while there is one page left, and the
  page shown is empty: \<open>deleteOrder\<close> (like \<open>onUpdate\<close> and \<open>upsertOrder\<close>) changes the number
  of visible orders and does not touch the page.
\<close>

theorem page_exceeds_totalPages_after_delete:
  "page (nextPage example_runtime seven_orders) = 2 \<and>
   totalPages example_runtime (nextPage example_runtime seven_orders) = 2 \<and>
   map oid (pageItems example_runtime (nextPage example_runtime seven_orders)) = [''ord_1''] \<and>
   page (deleteOrder ''ord_1'' (nextPage example_runtime seven_orders)) = 2 \<and>
   totalPages example_runtime (deleteOrder ''ord_1'' (nextPage example_runtime seven_orders)) = 1 \<and>
   pageItems example_runtime (deleteOrder ''ord_1'' (nextPage example_runtime seven_orders)) = []"
  by code_simp

lemma push_day_keys:
  "map fst (push_day d c m) = (if d \<in> set (map fst m) then map fst m else map fst m @ [d])"
  by (induction m) force+

lemma push_day_map_of:
  "map_of (push_day d c m) =
     (map_of m)(d \<mapsto> (case map_of m d of None \<Rightarrow> [c] | Some l \<Rightarrow> l @ [c]))"
  by (induction m) (auto simp: fun_eq_iff)

lemma day_map_snoc:
  "day_map rt (cs @ [c]) = push_day (getDayKey rt (completedAt c)) c (day_map rt cs)"
  by (simp add: day_map_def getDayKey_def)

lemma day_map_keys:
  "distinct (map fst (day_map rt cs)) \<and>
   set (map fst (day_map rt cs)) = (\<lambda>c. getDayKey rt (completedAt c)) ` set cs"
proof (induction cs rule: rev_induct)
  case Nil
  show ?case by (simp add: day_map_def)
next
  case (snoc c cs)
  then show ?case
    by (auto simp: day_map_snoc push_day_keys simp del: set_map)
qed

lemma day_map_lookup:
  "map_of (day_map rt cs) d =
     (if d \<in> (\<lambda>c. getDayKey rt (completedAt c)) ` set cs
      then Some (filter (\<lambda>c. getDayKey rt (completedAt c) = d) cs) else None)"
proof (induction cs rule: rev_induct)
  case Nil
  show ?case by (simp add: day_map_def)
next
  case (snoc c cs)
  then show ?case
    by (auto simp: day_map_snoc push_day_map_of filter_empty_conv image_iff) metis
qed

lemma set_insort_cmp: "set (insort_cmp cmp x ys) = insert x (set ys)"
  by (induction ys) auto

lemma set_js_sort: "set (js_sort cmp xs) = set xs"
  by (induction xs) (simp_all add: js_sort_def set_insort_cmp)

lemma distinct_insort_cmp:
  "distinct (insort_cmp cmp x ys) \<longleftrightarrow> x \<notin> set ys \<and> distinct ys"
  by (induction ys) (auto simp: set_insort_cmp)

lemma distinct_js_sort: "distinct (js_sort cmp xs) \<longleftrightarrow> distinct xs"
  by (induction xs) (simp_all add: js_sort_def distinct_insort_cmp set_js_sort [unfolded js_sort_def])

lemma localeCompare_le: "localeCompare b a \<le> 0 \<longleftrightarrow> b \<le> a"
  by (auto simp: localeCompare_def)

lemma desc_insort_cmp:
  "sorted_wrt (\<lambda>a b. b \<le> a) ys \<Longrightarrow>
   sorted_wrt (\<lambda>a b. b \<le> a) (insort_cmp (\<lambda>a b. localeCompare b a) x ys)"
  by (induction ys) (auto simp: set_insort_cmp localeCompare_le)

lemma desc_js_sort:
  "sorted_wrt (\<lambda>a b. b \<le> a) (js_sort (\<lambda>a b. localeCompare b a) xs)"
  by (induction xs) (simp_all add: js_sort_def desc_insort_cmp)

lemma strict_desc:
  "sorted_wrt (\<lambda>a b. b < a) xs \<longleftrightarrow> sorted_wrt (\<lambda>a b. b \<le> a) xs \<and> distinct xs"
  for xs :: "'a :: linorder list"
  by (induction xs) (auto simp: less_le)

lemma strict_desc_unique:
  fixes xs ys :: "'a :: linorder list"
  assumes "sorted_wrt (\<lambda>a b. b < a) xs" and "sorted_wrt (\<lambda>a b. b < a) ys"
    and "set xs = set ys"
  shows "xs = ys"
proof -
  have "sorted (rev xs)" "distinct (rev xs)" "sorted (rev ys)" "distinct (rev ys)"
    using assms(1,2) by (simp_all add: strict_desc sorted_wrt_rev)
  moreover have "set (rev xs) = set (rev ys)"
    using assms(3) by simp
  ultimately have "rev xs = rev ys"
    by (rule sorted_distinct_set_unique)
  then show ?thesis by simp
qed

lemma day_keys_desc:
  "sorted_wrt (\<lambda>a b. b < a) (js_sort (\<lambda>a b. localeCompare b a) (map fst (day_map rt cs)))"
  by (simp add: strict_desc desc_js_sort distinct_js_sort day_map_keys)

lemma grouped_eq:
  "grouped rt cs =
     map (\<lambda>d. \<lparr>day = d, g_items = filter (\<lambda>c. getDayKey rt (completedAt c) = d) cs\<rparr>)
       (js_sort (\<lambda>a b. localeCompare b a) (map fst (day_map rt cs)))"
  unfolding grouped_def Let_def
  by (rule map_cong) (simp_all add: set_js_sort day_map_keys day_map_lookup del: set_map)

lemma grouped_days:
  "map day (grouped rt cs) = js_sort (\<lambda>a b. localeCompare b a) (map fst (day_map rt cs))"
  by (simp add: grouped_eq comp_def)

lemma grouped_removeDay:
  "grouped rt (filter (\<lambda>c. getDayKey rt (completedAt c) \<noteq> d) cs) =
   filter (\<lambda>g. day g \<noteq> d) (grouped rt cs)"
proof -
  let ?key = "\<lambda>c. getDayKey rt (completedAt c)"
  let ?cs' = "filter (\<lambda>c. ?key c \<noteq> d) cs"
  let ?K = "js_sort (\<lambda>a b. localeCompare b a) (map fst (day_map rt cs))"
  let ?K' = "js_sort (\<lambda>a b. localeCompare b a) (map fst (day_map rt ?cs'))"
  have "sorted_wrt (\<lambda>a b. b < a) (filter (\<lambda>k. k \<noteq> d) ?K)"
    by (rule sorted_wrt_filter) (rule day_keys_desc)
  moreover have "sorted_wrt (\<lambda>a b. b < a) ?K'"
    by (rule day_keys_desc)
  moreover have "set ?K' = set (filter (\<lambda>k. k \<noteq> d) ?K)"
    by (auto simp: set_js_sort day_map_keys simp del: set_map)
  ultimately have K: "?K' = filter (\<lambda>k. k \<noteq> d) ?K"
    by (intro strict_desc_unique)
  have "map (\<lambda>k. \<lparr>day = k, g_items = filter (\<lambda>c. ?key c = k) ?cs'\<rparr>) (filter (\<lambda>k. k \<noteq> d) ?K) =
        map (\<lambda>k. \<lparr>day = k, g_items = filter (\<lambda>c. ?key c = k) cs\<rparr>) (filter (\<lambda>k. k \<noteq> d) ?K)"
    by (rule map_cong) (auto intro: filter_cong)
  then show ?thesis
    by (simp add: grouped_eq K filter_map comp_def)
qed

lemma dayTotal_fold:
  "dayTotal rt its =
     foldl (\<lambda>s c. num_add rt s (total rt (snapshot c))) (num_zero rt) its"
  by (simp add: dayTotal_def total_def)

section \<open>Claims about the archive grouped by day\<close>

text \<open>
  Claim C7. The day groups come sorted by day key strictly descending, one group per day
  key that occurs. The records of a group are the archive records with that day key, in
  the order of the archive list, which has the newest record first because \<open>addCompleted\<close>
  puts a new record in front. The day total is the sum of the order totals of the group,
  added up from zero in the order of the group by the addition of the runtime.
  \<open>removeCompletedDay\<close> keeps exactly the records whose day key, computed by \<open>getDayKey\<close> as
  the grouping computes it, differs from the given one: afterwards the group of that day is
  gone and every other group is as before.
\<close>

theorem grouped_by_day_and_removeDay:
  "sorted_wrt (\<lambda>a b. day b < day a) (grouped rt cs) \<and>
   set (map day (grouped rt cs)) = (\<lambda>c. getDayKey rt (completedAt c)) ` set cs \<and>
   (\<forall>g \<in> set (grouped rt cs).
      g_items g = filter (\<lambda>c. getDayKey rt (completedAt c) = day g) cs \<and>
      dayTotal rt (g_items g) =
        foldl (\<lambda>s c. num_add rt s (total rt (snapshot c))) (num_zero rt) (g_items g)) \<and>
   (\<not> list_ex (\<lambda>c. oid (snapshot c) = oid order) cs \<longrightarrow>
      addCompleted now order cs = \<lparr>snapshot = order, completedAt = now\<rparr> # cs) \<and>
   completedOrders (removeCompletedDay rt d st) =
     filter (\<lambda>c. getDayKey rt (completedAt c) \<noteq> d) (completedOrders st) \<and>
   grouped rt (completedOrders (removeCompletedDay rt d st)) =
     filter (\<lambda>g. day g \<noteq> d) (grouped rt (completedOrders st))"
proof -
  have "sorted_wrt (\<lambda>a b. b < a) (map day (grouped rt cs))"
    by (simp only: grouped_days day_keys_desc)
  then have s: "sorted_wrt (\<lambda>a b. day b < day a) (grouped rt cs)"
    by (simp add: sorted_wrt_map)
  have k: "set (map day (grouped rt cs)) = (\<lambda>c. getDayKey rt (completedAt c)) ` set cs"
    by (simp only: grouped_days set_js_sort day_map_keys)
  have g: "\<forall>g \<in> set (grouped rt cs).
      g_items g = filter (\<lambda>c. getDayKey rt (completedAt c) = day g) cs \<and>
      dayTotal rt (g_items g) =
        foldl (\<lambda>s c. num_add rt s (total rt (snapshot c))) (num_zero rt) (g_items g)"
    by (auto simp: grouped_eq dayTotal_fold)
  have a: "\<not> list_ex (\<lambda>c. oid (snapshot c) = oid order) cs \<longrightarrow>
      addCompleted now order cs = \<lparr>snapshot = order, completedAt = now\<rparr> # cs"
    by (simp add: addCompleted_def)
  have r: "completedOrders (removeCompletedDay rt d st) =
     filter (\<lambda>c. getDayKey rt (completedAt c) \<noteq> d) (completedOrders st)"
    by (simp add: removeCompletedDay_def)
  from s k g a r grouped_removeDay [of rt d "completedOrders st"] show ?thesis
    by (simp only: simp_thms)
qed

theorem grouped_by_day_and_removeDay_witness:
  "grouped example_runtime three_completed =
     [\<lparr>day = ''2025-09-24'', g_items = [hd three_completed]\<rparr>,
      \<lparr>day = ''2025-09-23'', g_items = tl three_completed\<rparr>] \<and>
   dayTotal example_runtime (tl three_completed) = 19 \<and>
   grouped example_runtime
     (completedOrders (removeCompletedDay example_runtime ''2025-09-23''
        (example_state\<lparr>completedOrders := three_completed\<rparr>))) =
     [\<lparr>day = ''2025-09-24'', g_items = [hd three_completed]\<rparr>] \<and>
   addCompleted ''2025-09-24T10:00:00.000Z'' (numbered_order 9) three_completed =
     \<lparr>snapshot = numbered_order 9, completedAt = ''2025-09-24T10:00:00.000Z''\<rparr> #
     three_completed"
proof -
  have G: "grouped example_runtime three_completed =
     [\<lparr>day = ''2025-09-24'', g_items = [hd three_completed]\<rparr>,
      \<lparr>day = ''2025-09-23'', g_items = tl three_completed\<rparr>]"
    by code_simp
  have S: "foldl (\<lambda>s c. num_add example_runtime s (total example_runtime (snapshot c)))
      (num_zero example_runtime) (tl three_completed) = 19"
    by code_simp
  have N: "\<not> list_ex (\<lambda>c. oid (snapshot c) = oid (numbered_order 9)) three_completed"
    by code_simp
  note T = grouped_by_day_and_removeDay [where rt = example_runtime
      and cs = three_completed and d = "''2025-09-23''"
      and st = "example_state\<lparr>completedOrders := three_completed\<rparr>"
      and order = "numbered_order 9" and now = "''2025-09-24T10:00:00.000Z''"]
  from T N have A: "addCompleted ''2025-09-24T10:00:00.000Z'' (numbered_order 9) three_completed =
     \<lparr>snapshot = numbered_order 9, completedAt = ''2025-09-24T10:00:00.000Z''\<rparr> #
     three_completed"
    by blast
  from T have "\<forall>g \<in> set (grouped example_runtime three_completed).
      dayTotal example_runtime (g_items g) =
      foldl (\<lambda>s c. num_add example_runtime s (total example_runtime (snapshot c)))
        (num_zero example_runtime) (g_items g)"
    by blast
  then have D: "dayTotal example_runtime (tl three_completed) = 19"
    by (simp add: G S)
  from T have "grouped example_runtime
     (completedOrders (removeCompletedDay example_runtime ''2025-09-23''
        (example_state\<lparr>completedOrders := three_completed\<rparr>))) =
     filter (\<lambda>g. day g \<noteq> ''2025-09-23'')
       (grouped example_runtime
          (completedOrders (example_state\<lparr>completedOrders := three_completed\<rparr>)))"
    by blast
  then have R: "grouped example_runtime
     (completedOrders (removeCompletedDay example_runtime ''2025-09-23''
        (example_state\<lparr>completedOrders := three_completed\<rparr>))) =
     [\<lparr>day = ''2025-09-24'', g_items = [hd three_completed]\<rparr>]"
    by (simp add: G)
  from G D R A show ?thesis
    by (simp only: simp_thms)
qed

lemma replace_all_Nil: "replace_all c r [] = []"
  by (simp add: replace_all_def)

lemma replace_all_Cons:
  "replace_all c r (x # xs) = (if x = c then r else [x]) @ replace_all c r xs"
  by (simp add: replace_all_def)

lemma replace_all_append:
  "replace_all c r (xs @ ys) = replace_all c r xs @ replace_all c r ys"
  by (simp add: replace_all_def)

lemma escape_chain:
  "replace_all (CHR 0x27) ''&#039;''
     (replace_all (CHR 0x22) ''&quot;''
       (replace_all (CHR ''>'') ''&gt;''
         (replace_all (CHR ''<'') ''&lt;''
           (replace_all (CHR ''&'') ''&amp;'' s)))) =
   concat (map escape_char s)"
proof (induction s)
  case Nil
  show ?case by (simp add: replace_all_Nil)
next
  case (Cons x xs)
  have "replace_all (CHR 0x27) ''&#039;''
     (replace_all (CHR 0x22) ''&quot;''
       (replace_all (CHR ''>'') ''&gt;''
         (replace_all (CHR ''<'') ''&lt;''
           (replace_all (CHR ''&'') ''&amp;'' [x])))) = escape_char x"
    by (simp add: replace_all_def escape_char_def)
  with Cons show ?case
    using replace_all_append [of _ _ "[x]" xs, simplified]
    by (simp add: replace_all_append)
qed

lemma escapeHtml_chars: "escapeHtml s = concat (map escape_char s)"
  by (simp add: escapeHtml_def escape_chain)

lemma sublist_left: "sublist x b \<Longrightarrow> sublist x (a @ b)"
  by (metis sublist_append)

lemma sublist_right: "sublist x a \<Longrightarrow> sublist x (a @ b)"
  by (metis sublist_append)

lemma sublist_first_line: "sublist x l \<Longrightarrow> sublist x (text_lines (l # ls))"
  by (simp only: text_lines_def list.map concat.simps sublist_right)

lemma receipt_logo_in_html: "sublist (''      '' @ receipt_logo shop) (receipt_html rt shop ord)"
  unfolding receipt_html_def Let_def
  apply (rule sublist_left)
  apply (rule sublist_left)
  apply (rule sublist_right)
  apply (rule sublist_first_line)
  apply (rule sublist_order.order.refl)
  done

lemma shop_address_in_html:
  \<open>sublist
     (''         <div class=" "><strong>Add:</strong> '' @
        escapeHtml (or_str (shop_address shop) []) @ ''</div>'')
     (receipt_html rt shop ord)\<close>
  unfolding receipt_html_def Let_def
  apply (rule sublist_left)
  apply (rule sublist_left)
  apply (rule sublist_left)
  apply (rule sublist_left)
  apply (rule sublist_right)
  apply (rule sublist_first_line)
  apply (rule sublist_order.order.refl)
  done

section \<open>Claims about the receipt\<close>

text \<open>
  Claim C9 at a shop profile the dashboard can load from its store: the logo text is
  written into the \<^verbatim>\<open>src\<close> attribute as it is, so its double quote closes the attribute and
  a \<^verbatim>\<open>script\<close> element arrives in the document, where \<open>escapeHtml\<close> would have written
  entities. The address of the same shop, one hole further down in the same template,
  goes through \<open>escapeHtml\<close> and arrives as entities: the logo is the one text hole of
  \<open>receipt_html\<close> that is not escaped.
\<close>

theorem logo_embedded_unescaped:
  \<open>logo script_logo_shop = Some ''x"><script>alert(1)</script>'' \<and>
   sublist
     ''      <img src="x"><script>alert(1)</script>" alt="logo" style="max-width:140px;height:auto;display:block;margin:0 auto 8px;" />''
     (receipt_html example_runtime script_logo_shop example_order) \<and>
   escapeHtml ''x"><script>alert(1)</script>'' =
     ''x&quot;&gt;&lt;script&gt;alert(1)&lt;/script&gt;'' \<and>
   shop_address script_logo_shop = ''<b>1 Main St</b>'' \<and>
   sublist ''         <div class=" "><strong>Add:</strong> &lt;b&gt;1 Main St&lt;/b&gt;</div>''
     (receipt_html example_runtime script_logo_shop example_order)\<close>
proof -
  have l: \<open>logo script_logo_shop = Some ''x"><script>alert(1)</script>''\<close>
    by (simp add: script_logo_shop_def)
  have a: \<open>shop_address script_logo_shop = ''<b>1 Main St</b>''\<close>
    by (simp add: script_logo_shop_def)
  have e: \<open>escapeHtml ''x"><script>alert(1)</script>'' =
      ''x&quot;&gt;&lt;script&gt;alert(1)&lt;/script&gt;''\<close>
    by (simp add: escapeHtml_chars escape_char_def)
  have L: \<open>''      '' @ receipt_logo script_logo_shop =
      ''      <img src="x"><script>alert(1)</script>" alt="logo" style="max-width:140px;height:auto;display:block;margin:0 auto 8px;" />''\<close>
    by (simp add: receipt_logo_def l)
  have A: \<open>''         <div class=" "><strong>Add:</strong> '' @
        escapeHtml (or_str (shop_address script_logo_shop) []) @ ''</div>'' =
      ''         <div class=" "><strong>Add:</strong> &lt;b&gt;1 Main St&lt;/b&gt;</div>''\<close>
    by (simp add: a or_str_def escapeHtml_chars escape_char_def)
  have s1: \<open>sublist
     ''      <img src="x"><script>alert(1)</script>" alt="logo" style="max-width:140px;height:auto;display:block;margin:0 auto 8px;" />''
     (receipt_html example_runtime script_logo_shop example_order)\<close>
    using receipt_logo_in_html [of script_logo_shop example_runtime example_order]
    by (simp only: L)
  have s2: \<open>sublist
      ''         <div class=" "><strong>Add:</strong> &lt;b&gt;1 Main St&lt;/b&gt;</div>''
      (receipt_html example_runtime script_logo_shop example_order)\<close>
    using shop_address_in_html [of script_logo_shop example_runtime example_order]
    by (simp only: A)
  from l s1 e a s2 show ?thesis
    by (simp only: simp_thms)
qed

end
